theory Spec2Isabelle
  imports Main "HOL-Library.Sublist"
begin

section \<open>The RestaurantBot front-end (streamlit_app.py)\<close>

text \<open>
  The program is one Streamlit script. Streamlit executes the whole script from top to
  bottom once per interaction of a browser session (a run). Two stores outlive a run:
  the process (the ambient \<^verbatim>\<open>Settings\<close> of the indexing library and the entry that
  \<^verbatim>\<open>st.cache_resource\<close> keeps for \<^verbatim>\<open>load_index\<close>) and the session
  (\<^verbatim>\<open>st.session_state\<close>). A run is modelled as a function from the answers of
  the outside world in that run and the two stores to an outcome, the list of calls
  the run made to the outside world in program order, and the two stores after the run.
\<close>

subsection \<open>Values, exceptions, messages\<close>

text \<open>Objects built by the libraries are opaque; only their identity is kept.\<close>

type_synonym obj = nat

text \<open>What a Python variable such as \<^verbatim>\<open>index\<close> can hold at the test \<^verbatim>\<open>index is None\<close>.\<close>

datatype pyval = PyNone | PyObj obj

text \<open>
  Instances of Python's \<^verbatim>\<open>Exception\<close>: the interpreter's \<^verbatim>\<open>NameError\<close> for
  an unbound global name (with the name), \<^verbatim>\<open>AttributeError\<close> for a key that
  \<^verbatim>\<open>st.session_state\<close> does not hold (with its message), and \<^verbatim>\<open>Error\<close> for
  whatever a library call raises when it fails (with its message). Interpreter signals
  outside \<^verbatim>\<open>Exception\<close> (interrupts, exit requests) are not failures of a call and
  are not modelled.
\<close>

datatype exn = NameError string | AttributeError string | Error string

text \<open>\<^verbatim>\<open>str(e)\<close>, as the f-string of line 39 formats the exception.\<close>

fun str :: "exn \<Rightarrow> string" where
  "str (NameError name) = ''name '' @ [CHR 0x27] @ name @ [CHR 0x27] @ '' is not defined''"
| "str (AttributeError msg) = msg"
| "str (Error msg) = msg"

text \<open>A message is the dictionary \<^verbatim>\<open>{"role": r, "content": c}\<close>.\<close>

record message =
  role :: string
  content :: string

type_synonym document = string

subsection \<open>The two stores\<close>

record process =
  Settings_llm :: "obj option"
  Settings_embed_model :: "obj option"
  load_index_cache :: "pyval option"

record session_state =
  chat_engine :: "obj option"
  messages :: "message list option"

text \<open>A process that has just started, and a session that has just connected.\<close>

definition new_process :: process where
  "new_process = \<lparr>Settings_llm = None, Settings_embed_model = None, load_index_cache = None\<rparr>"

definition new_session :: session_state where
  "new_session = \<lparr>chat_engine = None, messages = None\<rparr>"

subsection \<open>The outside world\<close>

text \<open>
  Every call that leaves the script, with its arguments. UI calls only display; the
  others are calls into the model provider's clients, the file system and the indexing
  library.
\<close>

datatype event =
    St_set_page_config string string string
  | St_error string
  | St_spinner string
  | St_title string
  | St_caption string
  | St_chat_message string
  | St_markdown string
  | St_chat_input string
  | Print string
  | GoogleGenAI_call string string
  | GoogleGenAIEmbedding_call string string
  | Os_path_exists string
  | SimpleDirectoryReader_files "string list"
  | SimpleDirectoryReader_dir string
  | VectorStoreIndex_from_documents "document list"
  | Persist obj string
  | StorageContext_from_defaults string
  | Load_index_from_storage obj
  | As_chat_engine obj string string
  | Chat_call obj string

text \<open>
  What the outside world answers during one run. A library call either raises or
  returns; the library declares that \<^verbatim>\<open>load_index_from_storage\<close> and the index
  constructor return an index object. \<^verbatim>\<open>chat_input\<close> is what
  \<^verbatim>\<open>st.chat_input\<close> returns in this run: \<open>None\<close> when the user submitted nothing.
  \<^verbatim>\<open>chat\<close> gives the text of the response (\<^verbatim>\<open>response.response\<close>).
  \<^verbatim>\<open>st_secrets\<close> is what reading \<^verbatim>\<open>st.secrets\<close> gives: the mapping of the secret
  store, or the exception the framework raises when the deployment has no secrets file.
\<close>

record env =
  st_secrets :: "exn + (string \<rightharpoonup> string)"
  GoogleGenAI :: "string \<Rightarrow> string \<Rightarrow> exn + obj"
  GoogleGenAIEmbedding :: "string \<Rightarrow> string \<Rightarrow> exn + obj"
  path_exists :: "string \<Rightarrow> bool"
  read_files :: "string list \<Rightarrow> exn + document list"
  read_dir :: "string \<Rightarrow> exn + document list"
  from_documents :: "document list \<Rightarrow> exn + obj"
  persist :: "obj \<Rightarrow> string \<Rightarrow> exn + unit"
  from_defaults :: "string \<Rightarrow> exn + obj"
  load_index_from_storage :: "obj \<Rightarrow> exn + obj"
  as_chat_engine :: "obj \<Rightarrow> string \<Rightarrow> string \<Rightarrow> exn + obj"
  chat_input :: "string option"
  chat :: "obj \<Rightarrow> string \<Rightarrow> exn + string"

text \<open>The value a readable secret store holds under a key; none when the store cannot be read.\<close>

definition secrets :: "env \<Rightarrow> string \<rightharpoonup> string" where
  "secrets w key = (case st_secrets w of Inl e \<Rightarrow> None | Inr store \<Rightarrow> store key)"

subsection \<open>Module namespace\<close>

text \<open>
  The names the module binds before \<^verbatim>\<open>load_index\<close> is first called: the imports of
  lines 1 to 10 and the assignments and the definition of lines 22 to 63. Reading any
  other global name raises \<^verbatim>\<open>NameError\<close>.
\<close>

definition module_globals :: "string list" where
  "module_globals =
     [''st'', ''os'', ''sys'', ''StorageContext'', ''load_index_from_storage'', ''Settings'',
      ''GoogleGenAI'', ''GoogleGenAIEmbedding'', ''google_api_key'', ''SYSTEM_PROMPT'',
      ''load_index'']"

definition lookup_global :: "string \<Rightarrow> exn + unit" where
  "lookup_global name = (if name \<in> set module_globals then Inr () else Inl (NameError name))"

subsection \<open>Constants of the script\<close>

definition page_title :: string where
  "page_title = ''B-West Grill''"

definition page_icon :: string where
  "page_icon = [CHR 0xF0, CHR 0x9F, CHR 0x8D, CHR 0x94]"

definition missing_key_message :: string where
  "missing_key_message = ''API Key not found. Please add it to your Streamlit Secrets.''"

definition setup_error_prefix :: string where
  "setup_error_prefix = ''Error setting up Google AI. Check your API key. Details: ''"

definition SYSTEM_PROMPT :: string where
  \<open>SYSTEM_PROMPT = ''\<newline>You are "RestaurantBot," an expert, friendly, and helpful waiter for our restaurant.\<newline>Your primary goal is to help customers find the perfect dish.\<newline>\<newline>You must follow these rules at all times:\<newline>1.  **Use ONLY the provided data.** Never make up a dish, price, or ingredient.\<newline>2.  **Be Friendly and Conversational:** Do not just list data. Talk like a helpful waiter.\<newline>3.  **Answer Allergen Questions:** Use the `tags` data to answer questions about allergens (`contains_gluten`, `contains_nuts`, etc.) and dietary needs (`vegan`, `is_halal`).\<newline>4.  **Answer "What's Good?":** Use the customer reviews to answer questions like "What's good?" or "What's popular?"\<newline>5.  **ADVANCED PAIRING LOGIC:** When asked for a pairing or recommendation, you must use the following rules based on the `tags`:\<newline>    * **Rule 1 (Spice):** Spicy dishes (`spicy`) pair well with cooling, sweet drinks (`cooling`, `sweet`) or light, crisp beers (`light`, `crisp`).\<newline>    * **Rule 2 (Intensity):** Rich, heavy dishes (`rich`, `heavy`, `red_meat`) pair with full-bodied drinks (like a `red_wine` with `tannic` tags).\<newline>    * **Rule 3 (Intensity):** Light, delicate dishes (`light`, `delicate`, `fish`, `poultry`) pair with light-bodied, acidic drinks (like a `white_wine` with `crisp`, `acidic` tags).\<newline>    * **Rule 4 (Contrast):** Acidic drinks (`acidic`) can cut through rich, creamy dishes (`rich`, `creamy`).\<newline>6.  **Explain Your Recommendations:** When you recommend a pairing, *always explain why* using the rules.\<newline>''\<close>

definition PERSIST_DIR :: string where
  "PERSIST_DIR = ''./storage''"

definition loading_spinner :: string where
  "loading_spinner = ''Loading knowledge base... '' @ [CHR 0xF0, CHR 0x9F, CHR 0xA7, CHR 0xA0]"

definition title_text :: string where
  "title_text = [CHR 0xF0, CHR 0x9F, CHR 0x8D, CHR 0xBD, CHR 0xEF, CHR 0xB8, CHR 0x8F] @ '' RestaurantBot''"

definition caption_text :: string where
  "caption_text = ''Ask me about the menu, allergens, or what'' @ [CHR 0x27] @ ''s good!''"

definition greeting :: message where
  "greeting = \<lparr>role = ''assistant'',
     content = ''Hi! I'' @ [CHR 0x27] @ ''m RestaurantBot. Ask me anything about the menu.''\<rparr>"

definition chat_prompt :: string where
  "chat_prompt = ''What would you like to know?''"

subsection \<open>Section 2 of the script: the model clients (lines 29 to 40)\<close>

text \<open>
  The body of the \<^verbatim>\<open>try\<close> block. The generation client is constructed and
  installed first, so it stays installed when the embedding client fails.
\<close>

definition setup_clients :: "env \<Rightarrow> string \<Rightarrow> process \<Rightarrow> (exn + unit) \<times> event list \<times> process" where
  "setup_clients w google_api_key p =
     (case GoogleGenAI w ''models/gemini-1.5-flash'' google_api_key of
        Inl e \<Rightarrow> (Inl e, [GoogleGenAI_call ''models/gemini-1.5-flash'' google_api_key], p)
      | Inr llm \<Rightarrow>
          (case GoogleGenAIEmbedding w ''models/embedding-001'' google_api_key of
             Inl e \<Rightarrow>
               (Inl e,
                [GoogleGenAI_call ''models/gemini-1.5-flash'' google_api_key,
                 GoogleGenAIEmbedding_call ''models/embedding-001'' google_api_key],
                p\<lparr>Settings_llm := Some llm\<rparr>)
           | Inr embed_model \<Rightarrow>
               (Inr (),
                [GoogleGenAI_call ''models/gemini-1.5-flash'' google_api_key,
                 GoogleGenAIEmbedding_call ''models/embedding-001'' google_api_key],
                p\<lparr>Settings_llm := Some llm, Settings_embed_model := Some embed_model\<rparr>)))"

text \<open>
  The \<^verbatim>\<open>try\<close> statement with its handler \<^verbatim>\<open>except Exception as e\<close>: the
  result is \<open>True\<close> when the script goes on and \<open>False\<close> when the handler has
  displayed the error and called \<^verbatim>\<open>st.stop()\<close>.
\<close>

definition configure_models :: "env \<Rightarrow> string \<Rightarrow> process \<Rightarrow> bool \<times> event list \<times> process" where
  "configure_models w google_api_key p =
     (case setup_clients w google_api_key p of
        (Inl e, evs, p') \<Rightarrow> (False, evs @ [St_error (setup_error_prefix @ str e)], p')
      | (Inr u, evs, p') \<Rightarrow> (True, evs, p'))"

subsection \<open>Section 4 of the script: the knowledge base (lines 62 to 90)\<close>

text \<open>Decimal digits of a number, for the f-string of line 81.\<close>

fun show_nat :: "nat \<Rightarrow> string" where
  "show_nat n =
     (if n < 10 then [char_of (48 + n)]
      else show_nat (n div 10) @ [char_of (48 + n mod 10)])"

text \<open>
  The branch of lines 66 to 85, entered when the persistence directory is absent. Its
  first statement after the \<^verbatim>\<open>print\<close> reads the global name
  \<^verbatim>\<open>SimpleDirectoryReader\<close>, and line 83 reads \<^verbatim>\<open>VectorStoreIndex\<close>.
\<close>

definition rebuild_index :: "env \<Rightarrow> (exn + pyval) \<times> event list" where
  "rebuild_index w =
     (let ev0 = [Print ''Storage not found. Rebuilding index...''] in
      case lookup_global ''SimpleDirectoryReader'' of
        Inl e \<Rightarrow> (Inl e, ev0)
      | Inr u \<Rightarrow>
     (let ev1 = ev0 @ [SimpleDirectoryReader_files [''./menu_data.csv'']] in
      case read_files w [''./menu_data.csv''] of
        Inl e \<Rightarrow> (Inl e, ev1)
      | Inr menu_docs \<Rightarrow>
     (let ev2 = ev1 @ [SimpleDirectoryReader_dir ''./reviews''] in
      case read_dir w ''./reviews'' of
        Inl e \<Rightarrow> (Inl e, ev2)
      | Inr review_docs \<Rightarrow>
     (let documents = menu_docs @ review_docs;
          ev3 = ev2 @ [Print (''Loaded '' @ show_nat (length documents) @ '' documents. Indexing...'')] in
      case lookup_global ''VectorStoreIndex'' of
        Inl e \<Rightarrow> (Inl e, ev3)
      | Inr u \<Rightarrow>
     (let ev4 = ev3 @ [VectorStoreIndex_from_documents documents] in
      case from_documents w documents of
        Inl e \<Rightarrow> (Inl e, ev4)
      | Inr index \<Rightarrow>
     (let ev5 = ev4 @ [Persist index PERSIST_DIR] in
      case persist w index PERSIST_DIR of
        Inl e \<Rightarrow> (Inl e, ev5)
      | Inr u \<Rightarrow> (Inr (PyObj index), ev5 @ [Print ''Index created and saved.''])))))))"

text \<open>The branch of lines 87 and 88, entered when the persistence directory exists.\<close>

definition load_persisted :: "env \<Rightarrow> (exn + pyval) \<times> event list" where
  "load_persisted w =
     (case from_defaults w PERSIST_DIR of
        Inl e \<Rightarrow> (Inl e, [StorageContext_from_defaults PERSIST_DIR])
      | Inr storage_context \<Rightarrow>
          (case load_index_from_storage w storage_context of
             Inl e \<Rightarrow>
               (Inl e, [StorageContext_from_defaults PERSIST_DIR, Load_index_from_storage storage_context])
           | Inr index \<Rightarrow>
               (Inr (PyObj index),
                [StorageContext_from_defaults PERSIST_DIR, Load_index_from_storage storage_context])))"

text \<open>The undecorated function of lines 63 to 90.\<close>

definition load_index_body :: "env \<Rightarrow> (exn + pyval) \<times> event list" where
  "load_index_body w =
     (if \<not> path_exists w PERSIST_DIR
      then (case rebuild_index w of (r, evs) \<Rightarrow> (r, Os_path_exists PERSIST_DIR # evs))
      else (case load_persisted w of (r, evs) \<Rightarrow> (r, Os_path_exists PERSIST_DIR # evs)))"

text \<open>
  Modelled from the spec: the decorator \<^verbatim>\<open>st.cache_resource\<close> of line 62 belongs to
  the UI framework, whose code is not part of the repository. The spec says of the
  decorated function that its result is cached for the lifetime of the running process
  and computed at most once per process. So a call finds the entry of the process and
  returns it without running the function; when there is no entry it shows the spinner,
  runs the function and stores what the function returns. A call that raises stores
  nothing.
\<close>

definition cache_resource ::
    "string \<Rightarrow> (unit \<Rightarrow> (exn + pyval) \<times> event list) \<Rightarrow> process \<Rightarrow> (exn + pyval) \<times> event list \<times> process" where
  "cache_resource show_spinner f p =
     (case load_index_cache p of
        Some v \<Rightarrow> (Inr v, [], p)
      | None \<Rightarrow>
          (case f () of
             (Inl e, evs) \<Rightarrow> (Inl e, St_spinner show_spinner # evs, p)
           | (Inr v, evs) \<Rightarrow> (Inr v, St_spinner show_spinner # evs, p\<lparr>load_index_cache := Some v\<rparr>)))"

text \<open>The decorated \<^verbatim>\<open>load_index\<close>, as line 92 calls it.\<close>

definition load_index :: "env \<Rightarrow> process \<Rightarrow> (exn + pyval) \<times> event list \<times> process" where
  "load_index w p = cache_resource loading_spinner (\<lambda>u. load_index_body w) p"

subsection \<open>Section 5 of the script: the chat engine (lines 97 to 101)\<close>

definition init_chat_engine :: "env \<Rightarrow> obj \<Rightarrow> session_state \<Rightarrow> exn option \<times> event list \<times> session_state" where
  "init_chat_engine w index ss =
     (case chat_engine ss of
        Some engine \<Rightarrow> (None, [], ss)
      | None \<Rightarrow>
          (case as_chat_engine w index ''context'' SYSTEM_PROMPT of
             Inl e \<Rightarrow> (Some e, [As_chat_engine index ''context'' SYSTEM_PROMPT], ss)
           | Inr engine \<Rightarrow>
               (None, [As_chat_engine index ''context'' SYSTEM_PROMPT], ss\<lparr>chat_engine := Some engine\<rparr>)))"

subsection \<open>Section 6 of the script: the history (lines 104 to 114)\<close>

text \<open>The loop of lines 112 to 114: one chat bubble per message, in order.\<close>

fun render_history :: "message list \<Rightarrow> event list" where
  "render_history [] = []"
| "render_history (msg # msgs) = St_chat_message (role msg) # St_markdown (content msg) # render_history msgs"

text \<open>
  The list the session holds once lines 107 to 110 have run: the seed when the session
  had none, the list it had otherwise.
\<close>

definition seeded :: "session_state \<Rightarrow> message list" where
  "seeded ss = (case messages ss of None \<Rightarrow> [greeting] | Some ms \<Rightarrow> ms)"

definition display_history :: "session_state \<Rightarrow> event list \<times> session_state" where
  "display_history ss =
     ([St_title title_text, St_caption caption_text] @ render_history (seeded ss),
      ss\<lparr>messages := Some (seeded ss)\<rparr>)"

subsection \<open>Sections 1 to 6 together\<close>

datatype stop_site = Missing_api_key | Client_setup_failed | Index_is_None

text \<open>
  How a run ends: at the end of the script, at one of the three calls of
  \<^verbatim>\<open>st.stop()\<close> (lines 26, 40 and 94), or with an exception that nothing caught.
\<close>

datatype outcome = Completed | Stopped stop_site | Raised exn

text \<open>
  Lines 13 to 114. The first component is \<open>Some\<close> of the outcome when the run ended
  there, and \<open>None\<close> when control reaches the chat input of line 117. The membership
  test of line 22 reads the secret store, and nothing catches what that read raises.
\<close>

definition startup ::
    "env \<Rightarrow> process \<times> session_state \<Rightarrow> outcome option \<times> event list \<times> process \<times> session_state" where
  "startup w st =
     (case st of (p, ss) \<Rightarrow>
     (let ev0 = [St_set_page_config page_title page_icon ''centered''] in
      case st_secrets w of
        Inl e \<Rightarrow> (Some (Raised e), ev0, p, ss)
      | Inr store \<Rightarrow>
     (case store ''GOOGLE_API_KEY'' of
        None \<Rightarrow> (Some (Stopped Missing_api_key), ev0 @ [St_error missing_key_message], p, ss)
      | Some google_api_key \<Rightarrow>
     (case configure_models w google_api_key p of
        (False, ev1, p1) \<Rightarrow> (Some (Stopped Client_setup_failed), ev0 @ ev1, p1, ss)
      | (True, ev1, p1) \<Rightarrow>
     (case load_index w p1 of
        (Inl e, ev2, p2) \<Rightarrow> (Some (Raised e), ev0 @ ev1 @ ev2, p2, ss)
      | (Inr PyNone, ev2, p2) \<Rightarrow> (Some (Stopped Index_is_None), ev0 @ ev1 @ ev2, p2, ss)
      | (Inr (PyObj index), ev2, p2) \<Rightarrow>
     (case init_chat_engine w index ss of
        (Some e, ev3, ss3) \<Rightarrow> (Some (Raised e), ev0 @ ev1 @ ev2 @ ev3, p2, ss3)
      | (None, ev3, ss3) \<Rightarrow>
     (case display_history ss3 of (ev4, ss4) \<Rightarrow>
        (None, ev0 @ ev1 @ ev2 @ ev3 @ ev4, p2, ss4))))))))"

subsection \<open>Section 7 of the script: one turn (lines 117 to 127)\<close>

text \<open>\<^verbatim>\<open>st.session_state.messages.append(m)\<close>; the attribute read raises when the key is absent.\<close>

definition append_message :: "message \<Rightarrow> session_state \<Rightarrow> exn + session_state" where
  "append_message m ss =
     (case messages ss of
        None \<Rightarrow> Inl (AttributeError ''messages'')
      | Some ms \<Rightarrow> Inr (ss\<lparr>messages := Some (ms @ [m])\<rparr>))"

definition user_message :: "string \<Rightarrow> message" where
  "user_message user_query = \<lparr>role = ''user'', content = user_query\<rparr>"

definition assistant_message :: "string \<Rightarrow> message" where
  "assistant_message response = \<lparr>role = ''assistant'', content = response\<rparr>"

text \<open>
  The condition of line 117 is the truth value of what \<^verbatim>\<open>st.chat_input\<close> returned:
  false for \<^verbatim>\<open>None\<close> and for the empty string.
\<close>

definition handle_turn :: "env \<Rightarrow> session_state \<Rightarrow> outcome \<times> event list \<times> session_state" where
  "handle_turn w ss =
     (case chat_input w of
        None \<Rightarrow> (Completed, [St_chat_input chat_prompt], ss)
      | Some user_query \<Rightarrow>
          if user_query = [] then (Completed, [St_chat_input chat_prompt], ss)
          else
            (case append_message (user_message user_query) ss of
               Inl e \<Rightarrow> (Raised e, [St_chat_input chat_prompt], ss)
             | Inr ss1 \<Rightarrow>
            (let ev1 = [St_chat_input chat_prompt, St_chat_message ''user'', St_markdown user_query,
                        St_chat_message ''assistant'', St_spinner ''Thinking...''] in
             case chat_engine ss1 of
               None \<Rightarrow> (Raised (AttributeError ''chat_engine''), ev1, ss1)
             | Some engine \<Rightarrow>
            (case chat w engine user_query of
               Inl e \<Rightarrow> (Raised e, ev1 @ [Chat_call engine user_query], ss1)
             | Inr response \<Rightarrow>
            (let ev2 = ev1 @ [Chat_call engine user_query, St_markdown response] in
             case append_message (assistant_message response) ss1 of
               Inl e \<Rightarrow> (Raised e, ev2, ss1)
             | Inr ss2 \<Rightarrow> (Completed, ev2, ss2))))))"

subsection \<open>One run, and the runs of a session\<close>

definition script :: "env \<Rightarrow> process \<times> session_state \<Rightarrow> outcome \<times> event list \<times> process \<times> session_state" where
  "script w st =
     (case startup w st of
        (Some out, evs, p, ss) \<Rightarrow> (out, evs, p, ss)
      | (None, evs, p, ss) \<Rightarrow>
          (case handle_turn w ss of (out, ev5, ss5) \<Rightarrow> (out, evs @ ev5, p, ss5)))"

definition outcome_of :: "outcome \<times> event list \<times> process \<times> session_state \<Rightarrow> outcome" where
  "outcome_of r = fst r"

definition trace_of :: "outcome \<times> event list \<times> process \<times> session_state \<Rightarrow> event list" where
  "trace_of r = fst (snd r)"

definition stores_of :: "outcome \<times> event list \<times> process \<times> session_state \<Rightarrow> process \<times> session_state" where
  "stores_of r = snd (snd r)"

text \<open>
  The runs of one session, one per element of the list, each with its own answers of
  the outside world; the stores are handed from one run to the next.
\<close>

fun session_runs ::
    "env list \<Rightarrow> process \<times> session_state \<Rightarrow> (outcome \<times> event list \<times> process \<times> session_state) list" where
  "session_runs [] st = []"
| "session_runs (w # ws) st = script w st # session_runs ws (stores_of (script w st))"

fun after_runs :: "env list \<Rightarrow> process \<times> session_state \<Rightarrow> process \<times> session_state" where
  "after_runs [] st = st"
| "after_runs (w # ws) st = after_runs ws (stores_of (script w st))"

text \<open>
  A turn is a run in which the user submitted a query. It completed when the run reached
  the end of the script. It failed when the run made the chat call and ended with an
  exception.
\<close>

definition submitted :: "env \<Rightarrow> bool" where
  "submitted w = (case chat_input w of None \<Rightarrow> False | Some user_query \<Rightarrow> user_query \<noteq> [])"

definition completed_turn ::
    "env \<Rightarrow> outcome \<times> event list \<times> process \<times> session_state \<Rightarrow> bool" where
  "completed_turn w r = (submitted w \<and> outcome_of r = Completed)"

text \<open>The number of completed turns among the runs of a session.\<close>

fun completed_turns :: "env list \<Rightarrow> process \<times> session_state \<Rightarrow> nat" where
  "completed_turns [] st = 0"
| "completed_turns (w # ws) st =
     (if completed_turn w (script w st) then 1 else 0) + completed_turns ws (stores_of (script w st))"

text \<open>The roles of a list made of the seed and \<open>n\<close> pairs of a user and an assistant message.\<close>

fun alternating :: "nat \<Rightarrow> string list" where
  "alternating 0 = []"
| "alternating (Suc n) = ''user'' # ''assistant'' # alternating n"

subsection \<open>Kinds of calls\<close>

fun is_error_display :: "event \<Rightarrow> bool" where
  "is_error_display (St_error msg) = True"
| "is_error_display x = False"

fun is_chat_call :: "event \<Rightarrow> bool" where
  "is_chat_call (Chat_call engine user_query) = True"
| "is_chat_call x = False"

fun is_engine_creation :: "event \<Rightarrow> bool" where
  "is_engine_creation (As_chat_engine index chat_mode system_prompt) = True"
| "is_engine_creation x = False"

fun chat_call_engine :: "event \<Rightarrow> obj option" where
  "chat_call_engine (Chat_call engine user_query) = Some engine"
| "chat_call_engine x = None"

definition failed_turn :: "outcome \<times> event list \<times> process \<times> session_state \<Rightarrow> bool" where
  "failed_turn r =
     (case outcome_of r of
        Raised e \<Rightarrow> filter is_chat_call (trace_of r) \<noteq> []
      | Completed \<Rightarrow> False
      | Stopped site \<Rightarrow> False)"

text \<open>Calls that read or write the menu file, the reviews directory or the persistence directory.\<close>

fun is_storage_access :: "event \<Rightarrow> bool" where
  "is_storage_access (Os_path_exists path) = True"
| "is_storage_access (SimpleDirectoryReader_files input_files) = True"
| "is_storage_access (SimpleDirectoryReader_dir input_dir) = True"
| "is_storage_access (VectorStoreIndex_from_documents documents) = True"
| "is_storage_access (Persist index persist_dir) = True"
| "is_storage_access (StorageContext_from_defaults persist_dir) = True"
| "is_storage_access (Load_index_from_storage storage_context) = True"
| "is_storage_access x = False"

subsection \<open>Sample worlds\<close>

text \<open>
  A deployment in which the credential is present, both clients construct, the
  persistence directory exists and holds an index, and every call succeeds; the user
  submits nothing.
\<close>

definition idle_world :: env where
  "idle_world =
     \<lparr>st_secrets = Inr [''GOOGLE_API_KEY'' \<mapsto> ''secret-key''],
      GoogleGenAI = (\<lambda>model_name api_key. Inr 1),
      GoogleGenAIEmbedding = (\<lambda>model_name api_key. Inr 2),
      path_exists = (\<lambda>path. True),
      read_files = (\<lambda>input_files. Inr [''row 1'', ''row 2'']),
      read_dir = (\<lambda>input_dir. Inr [''review 1'']),
      from_documents = (\<lambda>documents. Inr 3),
      persist = (\<lambda>index persist_dir. Inr ()),
      from_defaults = (\<lambda>persist_dir. Inr 4),
      load_index_from_storage = (\<lambda>storage_context. Inr 5),
      as_chat_engine = (\<lambda>index chat_mode system_prompt. Inr 6),
      chat_input = None,
      chat = (\<lambda>engine user_query. Inr ''Try the grilled fish.'')\<rparr>"

text \<open>The same deployment in a run where the user asks a question.\<close>

definition asking_world :: env where
  "asking_world = idle_world\<lparr>chat_input := Some ''What is good?''\<rparr>"

text \<open>The same run when the generation call fails.\<close>

definition failing_chat_world :: env where
  "failing_chat_world = asking_world\<lparr>chat := (\<lambda>engine user_query. Inl (Error ''503 Service Unavailable''))\<rparr>"

text \<open>
  The stores after a first run in that deployment: both clients installed, the index
  cached, the engine created and the list seeded.
\<close>

definition warm_process :: process where
  "warm_process = \<lparr>Settings_llm = Some 1, Settings_embed_model = Some 2, load_index_cache = Some (PyObj 5)\<rparr>"

definition greeted_session :: session_state where
  "greeted_session = \<lparr>chat_engine = Some 6, messages = Some [greeting]\<rparr>"

text \<open>A deployment whose secret store holds other secrets but not the credential.\<close>

definition no_key_world :: env where
  "no_key_world = idle_world\<lparr>st_secrets := Inr [''OTHER_KEY'' \<mapsto> ''other'']\<rparr>"

text \<open>A deployment to which no secret was ever added: it has no secrets file.\<close>

definition no_secrets_world :: env where
  "no_secrets_world = idle_world\<lparr>st_secrets := Inl (Error ''No secrets found.'')\<rparr>"

text \<open>Deployments in which the generation client, or the embedding client, rejects the key.\<close>

definition bad_llm_world :: env where
  "bad_llm_world = idle_world\<lparr>GoogleGenAI := (\<lambda>model_name api_key. Inl (Error ''invalid API key''))\<rparr>"

definition bad_embedding_world :: env where
  "bad_embedding_world =
     idle_world\<lparr>GoogleGenAIEmbedding := (\<lambda>model_name api_key. Inl (Error ''invalid API key''))\<rparr>"

text \<open>
  A deployment whose persistence directory is absent, while the menu file and the
  reviews directory are present and readable.
\<close>

definition fresh_checkout_world :: env where
  "fresh_checkout_world = idle_world\<lparr>path_exists := (\<lambda>path. path \<noteq> ''./storage'')\<rparr>"

text \<open>A deployment whose persisted index cannot be read back.\<close>

definition corrupt_storage_world :: env where
  "corrupt_storage_world =
     idle_world\<lparr>load_index_from_storage := (\<lambda>storage_context. Inl (Error ''No index in storage context''))\<rparr>"

text \<open>A deployment in which the index cannot be wrapped into a chat engine.\<close>

definition bad_engine_world :: env where
  "bad_engine_world =
     idle_world\<lparr>as_chat_engine := (\<lambda>index chat_mode system_prompt. Inl (Error ''unknown chat mode''))\<rparr>"

section \<open>Properties\<close>

subsection \<open>The shape of a run\<close>

lemma startup_cases:
  obtains
    (no_store) e where "st_secrets w = Inl e"
      "startup w (p, ss) =
         (Some (Raised e), [St_set_page_config page_title page_icon ''centered''], p, ss)"
  | (missing_key) store where "st_secrets w = Inr store" "store ''GOOGLE_API_KEY'' = None"
      "startup w (p, ss) =
         (Some (Stopped Missing_api_key),
          [St_set_page_config page_title page_icon ''centered'', St_error missing_key_message], p, ss)"
  | (setup_failed) k ev1 p1 where "secrets w ''GOOGLE_API_KEY'' = Some k"
      "configure_models w k p = (False, ev1, p1)"
      "startup w (p, ss) =
         (Some (Stopped Client_setup_failed), St_set_page_config page_title page_icon ''centered'' # ev1, p1, ss)"
  | (load_failed) k ev1 p1 e ev2 p2 where "secrets w ''GOOGLE_API_KEY'' = Some k"
      "configure_models w k p = (True, ev1, p1)" "load_index w p1 = (Inl e, ev2, p2)"
      "startup w (p, ss) =
         (Some (Raised e), St_set_page_config page_title page_icon ''centered'' # ev1 @ ev2, p2, ss)"
  | (index_none) k ev1 p1 ev2 p2 where "secrets w ''GOOGLE_API_KEY'' = Some k"
      "configure_models w k p = (True, ev1, p1)" "load_index w p1 = (Inr PyNone, ev2, p2)"
      "startup w (p, ss) =
         (Some (Stopped Index_is_None), St_set_page_config page_title page_icon ''centered'' # ev1 @ ev2, p2, ss)"
  | (engine_failed) k ev1 p1 i ev2 p2 e ev3 ss3 where "secrets w ''GOOGLE_API_KEY'' = Some k"
      "configure_models w k p = (True, ev1, p1)" "load_index w p1 = (Inr (PyObj i), ev2, p2)"
      "init_chat_engine w i ss = (Some e, ev3, ss3)"
      "startup w (p, ss) =
         (Some (Raised e), St_set_page_config page_title page_icon ''centered'' # ev1 @ ev2 @ ev3, p2, ss3)"
  | (ready) k ev1 p1 i ev2 p2 ev3 ss3 where "secrets w ''GOOGLE_API_KEY'' = Some k"
      "configure_models w k p = (True, ev1, p1)" "load_index w p1 = (Inr (PyObj i), ev2, p2)"
      "init_chat_engine w i ss = (None, ev3, ss3)"
      "startup w (p, ss) =
         (None, St_set_page_config page_title page_icon ''centered'' # ev1 @ ev2 @ ev3 @ fst (display_history ss3),
          p2, snd (display_history ss3))"
proof (cases "st_secrets w")
  case (Inl e)
  then show thesis
    by (intro no_store [of e]) (simp_all add: startup_def)
next
  case store: (Inr store)
  show thesis
  proof (cases "store ''GOOGLE_API_KEY''")
    case None
    with store show thesis
      by (intro missing_key [of store]) (simp_all add: startup_def)
  next
    case (Some k)
    with store have key: "secrets w ''GOOGLE_API_KEY'' = Some k"
      by (simp add: secrets_def)
    obtain b ev1 p1 where cm: "configure_models w k p = (b, ev1, p1)"
      by (cases "configure_models w k p") blast
    show thesis
    proof (cases b)
      case False
      with store Some key cm show thesis
        by (intro setup_failed [of k ev1 p1]) (simp_all add: startup_def)
    next
      case True
      obtain r ev2 p2 where li: "load_index w p1 = (r, ev2, p2)"
        by (cases "load_index w p1") blast
      show thesis
      proof (cases r)
        case (Inl e)
        with store Some key cm True li show thesis
          by (intro load_failed [of k ev1 p1 e ev2 p2]) (simp_all add: startup_def)
      next
        case (Inr v)
        show thesis
        proof (cases v)
          case PyNone
          with store Some key cm True li Inr show thesis
            by (intro index_none [of k ev1 p1 ev2 p2]) (simp_all add: startup_def)
        next
          case (PyObj i)
          obtain eo ev3 ss3 where ce: "init_chat_engine w i ss = (eo, ev3, ss3)"
            by (cases "init_chat_engine w i ss") blast
          show thesis
          proof (cases eo)
            case None
            with store \<open>store ''GOOGLE_API_KEY'' = Some k\<close> key cm True li Inr PyObj ce show thesis
              by (intro ready [of k ev1 p1 i ev2 p2 ev3 ss3])
                (simp_all add: startup_def case_prod_beta)
          next
            case (Some e)
            with store \<open>store ''GOOGLE_API_KEY'' = Some k\<close> key cm True li Inr PyObj ce show thesis
              by (intro engine_failed [of k ev1 p1 i ev2 p2 e ev3 ss3]) (simp_all add: startup_def)
          qed
        qed
      qed
    qed
  qed
qed

lemma secrets_Some:
  assumes "secrets w key = Some k"
  shows "\<exists>store. st_secrets w = Inr store \<and> store key = Some k"
  using assms by (cases "st_secrets w") (simp_all add: secrets_def)

lemma configure_models_first_call:
  "\<exists>rest. fst (snd (configure_models w k p)) = GoogleGenAI_call ''models/gemini-1.5-flash'' k # rest"
  by (simp add: configure_models_def setup_clients_def split: sum.splits)

lemma configure_models_False:
  assumes "configure_models w k p = (False, ev1, p1)"
  shows "\<exists>e evs. setup_clients w k p = (Inl e, evs, p1) \<and> ev1 = evs @ [St_error (setup_error_prefix @ str e)]"
  using assms by (auto simp: configure_models_def split: prod.splits sum.splits)

lemma configure_models_True:
  assumes "configure_models w k p = (True, ev1, p1)"
  shows "setup_clients w k p = (Inr (), ev1, p1)"
  using assms by (auto simp: configure_models_def split: prod.splits sum.splits)

lemma setup_clients_Inr:
  assumes "setup_clients w k p = (Inr u, ev1, p1)"
  shows "ev1 = [GoogleGenAI_call ''models/gemini-1.5-flash'' k, GoogleGenAIEmbedding_call ''models/embedding-001'' k]
         \<and> load_index_cache p1 = load_index_cache p"
  using assms by (auto simp: setup_clients_def split: sum.splits)

lemma setup_clients_cache:
  "load_index_cache (snd (snd (setup_clients w k p))) = load_index_cache p"
  by (simp add: setup_clients_def split: sum.splits)

lemma configure_models_cache:
  "load_index_cache (snd (snd (configure_models w k p))) = load_index_cache p"
  using setup_clients_cache [of w k p]
  by (cases "setup_clients w k p") (auto simp: configure_models_def split: sum.splits)

lemma script_startup_Some:
  "startup w st = (Some out, evs, p', ss') \<Longrightarrow> script w st = (out, evs, p', ss')"
  by (simp add: script_def)

lemma script_startup_None:
  "startup w st = (None, evs, p', ss') \<Longrightarrow>
     script w st = (fst (handle_turn w ss'), evs @ fst (snd (handle_turn w ss')), p', snd (snd (handle_turn w ss')))"
  by (simp add: script_def case_prod_beta)

text \<open>
  Lines 22 to 26 when the secret store can be read: without the key the run ends at the
  \<^verbatim>\<open>st.stop()\<close> of line 26 after the page configuration and one error display,
  with both stores as they were; with the key, its value is the key handed to the
  construction of the generation client, the first call after the page configuration.
\<close>

lemma key_missing_from_store_halts:
  assumes "st_secrets w = Inr store" and "store ''GOOGLE_API_KEY'' = None"
  shows "script w (p, ss) =
     (Stopped Missing_api_key,
      [St_set_page_config page_title page_icon ''centered'', St_error missing_key_message], p, ss)"
proof -
  from assms have "startup w (p, ss) =
      (Some (Stopped Missing_api_key),
       [St_set_page_config page_title page_icon ''centered'', St_error missing_key_message], p, ss)"
    by (simp add: startup_def)
  then show ?thesis
    by (rule script_startup_Some)
qed

lemma key_passed_to_client:
  assumes key: "secrets w ''GOOGLE_API_KEY'' = Some k"
  shows "\<exists>rest. trace_of (script w (p, ss)) =
         St_set_page_config page_title page_icon ''centered'' #
         GoogleGenAI_call ''models/gemini-1.5-flash'' k # rest"
proof (cases rule: startup_cases [where w=w and p=p and ss=ss])
  case (no_store e)
  with key show ?thesis by (simp add: secrets_def)
next
  case (missing_key store)
  with key show ?thesis by (simp add: secrets_def)
next
  case (setup_failed k' ev1 p1)
  with key configure_models_first_call [of w k p] show ?thesis
    by (auto simp: trace_of_def dest!: script_startup_Some)
next
  case (load_failed k' ev1 p1 e ev2 p2)
  with key configure_models_first_call [of w k p] show ?thesis
    by (auto simp: trace_of_def dest!: script_startup_Some)
next
  case (index_none k' ev1 p1 ev2 p2)
  with key configure_models_first_call [of w k p] show ?thesis
    by (auto simp: trace_of_def dest!: script_startup_Some)
next
  case (engine_failed k' ev1 p1 i ev2 p2 e ev3 ss3)
  with key configure_models_first_call [of w k p] show ?thesis
    by (auto simp: trace_of_def dest!: script_startup_Some)
next
  case (ready k' ev1 p1 i ev2 p2 ev3 ss3)
  with key configure_models_first_call [of w k p] show ?thesis
    by (auto simp: trace_of_def dest!: script_startup_None)
qed

text \<open>When the deployment has no secrets file, the test of line 22 raises and nothing catches it.\<close>

lemma no_secret_store_raises:
  assumes "st_secrets w = Inl e"
  shows "script w (p, ss) =
     (Raised e, [St_set_page_config page_title page_icon ''centered''], p, ss)"
proof -
  from assms have "startup w (p, ss) =
      (Some (Raised e), [St_set_page_config page_title page_icon ''centered''], p, ss)"
    by (simp add: startup_def)
  then show ?thesis
    by (rule script_startup_Some)
qed

text \<open>
  Claim C3, on a deployment to which no secret was ever added. The credential is absent,
  yet the run does not stop at line 26: the membership test of line 22 raises, the run
  ends with that exception after the page configuration, and no error is displayed.
  On a deployment whose store holds other secrets but not the credential the run does
  stop at line 26 after exactly one error display.
\<close>

theorem missing_secret_store_raises:
  "script no_secrets_world (new_process, new_session) =
     (Raised (Error ''No secrets found.''),
      [St_set_page_config page_title page_icon ''centered''], new_process, new_session)
   \<and> filter is_error_display (trace_of (script no_secrets_world (new_process, new_session))) = []
   \<and> script no_key_world (new_process, new_session) =
     (Stopped Missing_api_key,
      [St_set_page_config page_title page_icon ''centered'', St_error missing_key_message],
      new_process, new_session)"
proof -
  have "st_secrets no_secrets_world = Inl (Error ''No secrets found.'')"
    by (simp add: no_secrets_world_def idle_world_def)
  then have run: "script no_secrets_world (new_process, new_session) =
     (Raised (Error ''No secrets found.''),
      [St_set_page_config page_title page_icon ''centered''], new_process, new_session)"
    by (rule no_secret_store_raises)
  have "st_secrets no_key_world = Inr [''OTHER_KEY'' \<mapsto> ''other'']"
      "[''OTHER_KEY'' \<mapsto> ''other''] ''GOOGLE_API_KEY'' = None"
    by (simp_all add: no_key_world_def idle_world_def)
  then have "script no_key_world (new_process, new_session) =
     (Stopped Missing_api_key,
      [St_set_page_config page_title page_icon ''centered'', St_error missing_key_message],
      new_process, new_session)"
    by (rule key_missing_from_store_halts)
  with run show ?thesis
    by (simp add: trace_of_def)
qed

lemma rebuild_index_raises:
  "rebuild_index w =
     (Inl (NameError ''SimpleDirectoryReader''), [Print ''Storage not found. Rebuilding index...''])"
  by (simp add: rebuild_index_def lookup_global_def module_globals_def)

lemma load_index_body_absent:
  "\<not> path_exists w PERSIST_DIR \<Longrightarrow>
     load_index_body w =
       (Inl (NameError ''SimpleDirectoryReader''),
        [Os_path_exists PERSIST_DIR, Print ''Storage not found. Rebuilding index...''])"
  by (simp add: load_index_body_def rebuild_index_raises)

lemma load_index_body_present:
  "path_exists w PERSIST_DIR \<Longrightarrow>
     load_index_body w = (fst (load_persisted w), Os_path_exists PERSIST_DIR # snd (load_persisted w))"
  by (simp add: load_index_body_def case_prod_beta)

lemma load_persisted_not_None: "fst (load_persisted w) \<noteq> Inr PyNone"
  by (simp add: load_persisted_def split: sum.splits)

lemma load_index_body_not_None: "fst (load_index_body w) \<noteq> Inr PyNone"
  by (cases "path_exists w PERSIST_DIR")
    (simp_all add: load_index_body_absent load_index_body_present load_persisted_not_None)

lemma load_index_hit: "load_index_cache p = Some v \<Longrightarrow> load_index w p = (Inr v, [], p)"
  by (simp add: load_index_def cache_resource_def)

lemma load_index_miss:
  "load_index_cache p = None \<Longrightarrow>
     load_index w p =
       (case load_index_body w of
          (Inl e, evs) \<Rightarrow> (Inl e, St_spinner loading_spinner # evs, p)
        | (Inr v, evs) \<Rightarrow> (Inr v, St_spinner loading_spinner # evs, p\<lparr>load_index_cache := Some v\<rparr>))"
  by (simp add: load_index_def cache_resource_def)

text \<open>With the persistence directory present, the first call returns the persisted index.\<close>

lemma load_index_from_storage_returned:
  assumes "path_exists w PERSIST_DIR" and "load_index_cache p = None"
    and "from_defaults w PERSIST_DIR = Inr storage_context"
    and "load_index_from_storage w storage_context = Inr index"
  shows "load_index w p =
     (Inr (PyObj index),
      [St_spinner loading_spinner, Os_path_exists PERSIST_DIR,
       StorageContext_from_defaults PERSIST_DIR, Load_index_from_storage storage_context],
      p\<lparr>load_index_cache := Some (PyObj index)\<rparr>)"
  using assms by (simp add: load_index_miss load_index_body_present load_persisted_def)

lemma load_index_stores:
  assumes "load_index w p = (Inr v, evs, p1)"
  shows "load_index_cache p1 = Some v"
proof (cases "load_index_cache p")
  case None
  with assms show ?thesis
    by (auto simp: load_index_miss split: prod.splits sum.splits)
next
  case (Some u)
  with assms show ?thesis
    by (auto simp: load_index_hit)
qed

lemma load_index_raises_keeps:
  assumes "load_index w p = (Inl e, evs, p1)"
  shows "p1 = p"
proof (cases "load_index_cache p")
  case None
  with assms show ?thesis
    by (auto simp: load_index_miss split: prod.splits sum.splits)
next
  case (Some u)
  with assms show ?thesis
    by (auto simp: load_index_hit)
qed

lemma load_index_keeps_entry:
  assumes "load_index_cache p = Some v"
  shows "load_index_cache (snd (snd (load_index w p))) = Some v"
  using assms by (simp add: load_index_hit)

lemma load_index_not_None:
  assumes "load_index_cache p \<noteq> Some PyNone"
  shows "fst (load_index w p) \<noteq> Inr PyNone \<and> load_index_cache (snd (snd (load_index w p))) \<noteq> Some PyNone"
proof (cases "load_index_cache p")
  case None
  with load_index_body_not_None [of w] show ?thesis
    by (cases "load_index_body w") (auto simp: load_index_miss split: sum.splits)
next
  case (Some u)
  with assms show ?thesis
    by (simp add: load_index_hit)
qed

text \<open>The calls each section of the script can make.\<close>

lemma configure_models_events:
  assumes "x \<in> set (fst (snd (configure_models w k p)))"
  shows "x = GoogleGenAI_call ''models/gemini-1.5-flash'' k
       \<or> x = GoogleGenAIEmbedding_call ''models/embedding-001'' k
       \<or> (\<exists>e. x = St_error (setup_error_prefix @ str e))"
  using assms
  by (auto simp: configure_models_def setup_clients_def split: sum.splits)

lemma configure_models_True_events:
  assumes "configure_models w k p = (True, ev1, p1)"
  shows "ev1 = [GoogleGenAI_call ''models/gemini-1.5-flash'' k,
                GoogleGenAIEmbedding_call ''models/embedding-001'' k]"
  using configure_models_True [OF assms] setup_clients_Inr by blast

lemma load_persisted_events:
  assumes "x \<in> set (snd (load_persisted w))"
  shows "x = StorageContext_from_defaults PERSIST_DIR \<or> (\<exists>sc. x = Load_index_from_storage sc)"
  using assms by (auto simp: load_persisted_def split: sum.splits)

lemma load_index_body_events:
  assumes "x \<in> set (snd (load_index_body w))"
  shows "x = Os_path_exists PERSIST_DIR \<or> x = Print ''Storage not found. Rebuilding index...''
       \<or> x = StorageContext_from_defaults PERSIST_DIR \<or> (\<exists>sc. x = Load_index_from_storage sc)"
  using assms load_persisted_events [of x w]
  by (cases "path_exists w PERSIST_DIR") (auto simp: load_index_body_absent load_index_body_present)

lemma load_index_events:
  assumes "x \<in> set (fst (snd (load_index w p)))"
  shows "x = St_spinner loading_spinner
       \<or> x = Os_path_exists PERSIST_DIR \<or> x = Print ''Storage not found. Rebuilding index...''
       \<or> x = StorageContext_from_defaults PERSIST_DIR \<or> (\<exists>sc. x = Load_index_from_storage sc)"
proof (cases "load_index_cache p")
  case None
  with assms load_index_body_events [of x w] show ?thesis
    by (cases "load_index_body w") (auto simp: load_index_miss split: sum.splits)
next
  case (Some u)
  with assms show ?thesis by (simp add: load_index_hit)
qed

lemma init_chat_engine_events:
  assumes "x \<in> set (fst (snd (init_chat_engine w i ss)))"
  shows "x = As_chat_engine i ''context'' SYSTEM_PROMPT"
  using assms by (auto simp: init_chat_engine_def split: option.splits sum.splits)

lemma render_history_events:
  assumes "x \<in> set (render_history ms)"
  shows "(\<exists>r. x = St_chat_message r) \<or> (\<exists>c. x = St_markdown c)"
  using assms by (induction ms) auto

lemma display_history_events:
  assumes "x \<in> set (fst (display_history ss))"
  shows "x = St_title title_text \<or> x = St_caption caption_text
       \<or> (\<exists>r. x = St_chat_message r) \<or> (\<exists>c. x = St_markdown c)"
  using assms render_history_events [of x "seeded ss"]
  by (auto simp: display_history_def)

subsection \<open>The turn handler\<close>

lemma handle_turn_idle:
  assumes "\<not> submitted w"
  shows "handle_turn w ss = (Completed, [St_chat_input chat_prompt], ss)"
  using assms by (auto simp: handle_turn_def submitted_def split: option.splits)

lemma handle_turn_success:
  assumes "chat_input w = Some q" and "q \<noteq> []" and "messages ss = Some ms"
    and "chat_engine ss = Some engine" and "chat w engine q = Inr response"
  shows "handle_turn w ss =
     (Completed,
      [St_chat_input chat_prompt, St_chat_message ''user'', St_markdown q,
       St_chat_message ''assistant'', St_spinner ''Thinking...'', Chat_call engine q, St_markdown response],
      ss\<lparr>messages := Some (ms @ [user_message q, assistant_message response])\<rparr>)"
  using assms by (simp add: handle_turn_def append_message_def)

lemma handle_turn_failure:
  assumes "chat_input w = Some q" and "q \<noteq> []" and "messages ss = Some ms"
    and "chat_engine ss = Some engine" and "chat w engine q = Inl e"
  shows "handle_turn w ss =
     (Raised e,
      [St_chat_input chat_prompt, St_chat_message ''user'', St_markdown q,
       St_chat_message ''assistant'', St_spinner ''Thinking...'', Chat_call engine q],
      ss\<lparr>messages := Some (ms @ [user_message q])\<rparr>)"
  using assms by (simp add: handle_turn_def append_message_def)

lemma handle_turn_chat_engine:
  "chat_engine (snd (snd (handle_turn w ss))) = chat_engine ss"
  by (auto simp: handle_turn_def append_message_def Let_def split: option.splits sum.splits)

lemma handle_turn_extends:
  assumes "messages ss = Some ms"
  shows "\<exists>ext. messages (snd (snd (handle_turn w ss))) = Some (ms @ ext)"
  using assms
  by (auto simp: handle_turn_def append_message_def Let_def split: option.splits sum.splits)

lemma handle_turn_events:
  assumes "x \<in> set (fst (snd (handle_turn w ss)))"
  shows "x = St_chat_input chat_prompt \<or> (\<exists>r. x = St_chat_message r) \<or> (\<exists>c. x = St_markdown c)
       \<or> x = St_spinner ''Thinking...''
       \<or> (\<exists>engine q. chat_engine ss = Some engine \<and> x = Chat_call engine q)"
  using assms
  by (auto simp: handle_turn_def append_message_def Let_def split: option.splits sum.splits if_splits)

lemma handle_turn_completed:
  assumes "fst (handle_turn w ss) = Completed" and "messages ss = Some ms"
  shows "\<exists>ext. messages (snd (snd (handle_turn w ss))) = Some (ms @ ext)
           \<and> map role ext = (if submitted w then [''user'', ''assistant''] else [])"
  using assms
  by (auto simp: handle_turn_def append_message_def submitted_def Let_def user_message_def
      assistant_message_def split: option.splits sum.splits if_splits)

subsection \<open>The chat engine and the history\<close>

lemma init_chat_engine_kept:
  assumes "chat_engine ss = Some engine"
  shows "init_chat_engine w i ss = (None, [], ss)"
  using assms by (simp add: init_chat_engine_def)

lemma init_chat_engine_created:
  assumes "chat_engine ss = None" and "init_chat_engine w i ss = (None, ev3, ss3)"
  shows "\<exists>engine. as_chat_engine w i ''context'' SYSTEM_PROMPT = Inr engine
           \<and> ev3 = [As_chat_engine i ''context'' SYSTEM_PROMPT]
           \<and> ss3 = ss\<lparr>chat_engine := Some engine\<rparr>"
  using assms by (auto simp: init_chat_engine_def split: sum.splits)

lemma init_chat_engine_messages:
  "messages (snd (snd (init_chat_engine w i ss))) = messages ss"
  by (auto simp: init_chat_engine_def split: option.splits sum.splits)

lemma init_chat_engine_ready:
  assumes "init_chat_engine w i ss = (None, ev3, ss3)"
  shows "chat_engine ss3 \<noteq> None"
  using assms by (auto simp: init_chat_engine_def split: option.splits sum.splits)

lemma init_chat_engine_stable:
  assumes "chat_engine ss = Some engine"
  shows "chat_engine (snd (snd (init_chat_engine w i ss))) = Some engine"
  using assms by (simp add: init_chat_engine_def)

lemma display_history_messages:
  "messages (snd (display_history ss)) = Some (seeded ss)"
  by (simp add: display_history_def)

lemma display_history_chat_engine:
  "chat_engine (snd (display_history ss)) = chat_engine ss"
  by (simp add: display_history_def)

lemma seeded_Some: "messages ss = Some ms \<Longrightarrow> seeded ss = ms"
  by (simp add: seeded_def)

lemma seeded_None: "messages ss = None \<Longrightarrow> seeded ss = [greeting]"
  by (simp add: seeded_def)

subsection \<open>What sections 1 to 6 do to the stores\<close>

lemma startup_ended_session:
  assumes "startup w (p, ss) = (Some out, evs, p', ss')"
  shows "ss' = ss"
proof (cases rule: startup_cases [where w = w and p = p and ss = ss])
  case (engine_failed k ev1 p1 i ev2 p2 e ev3 ss3)
  then have "ss3 = ss"
    by (auto simp: init_chat_engine_def split: option.splits sum.splits)
  with engine_failed assms show ?thesis by simp
qed (use assms in simp_all)

lemma startup_ready_session:
  assumes "startup w (p, ss) = (None, evs, p', ss')"
  shows "messages ss' = Some (seeded ss) \<and> chat_engine ss' \<noteq> None
       \<and> (chat_engine ss \<noteq> None \<longrightarrow> chat_engine ss' = chat_engine ss)"
proof (cases rule: startup_cases [where w = w and p = p and ss = ss])
  case (ready k ev1 p1 i ev2 p2 ev3 ss3)
  from ready(4) have "chat_engine ss3 \<noteq> None"
    by (rule init_chat_engine_ready)
  moreover from ready(4) init_chat_engine_messages [of w i ss] have "messages ss3 = messages ss"
    by simp
  moreover from ready(4) have "chat_engine ss \<noteq> None \<longrightarrow> chat_engine ss3 = chat_engine ss"
    using init_chat_engine_stable [of ss _ w i] by auto
  ultimately show ?thesis
    using ready(5) assms
    by (simp add: display_history_messages display_history_chat_engine seeded_def)
qed (use assms in simp_all)

lemma startup_cache_rule:
  assumes start: "P (load_index_cache p)"
    and step: "\<And>q. P (load_index_cache q) \<Longrightarrow> P (load_index_cache (snd (snd (load_index w q))))"
  shows "P (load_index_cache (fst (snd (snd (startup w (p, ss))))))"
proof (cases rule: startup_cases [where w = w and p = p and ss = ss])
  case (no_store e)
  with start show ?thesis by simp
next
  case (missing_key store)
  with start show ?thesis by simp
next
  case (setup_failed k ev1 p1)
  with start configure_models_cache [of w k p] show ?thesis by simp
next
  case (load_failed k ev1 p1 e ev2 p2)
  with start configure_models_cache [of w k p] step [of p1] show ?thesis by simp
next
  case (index_none k ev1 p1 ev2 p2)
  with start configure_models_cache [of w k p] step [of p1] show ?thesis by simp
next
  case (engine_failed k ev1 p1 i ev2 p2 e ev3 ss3)
  with start configure_models_cache [of w k p] step [of p1] show ?thesis by simp
next
  case (ready k ev1 p1 i ev2 p2 ev3 ss3)
  with start configure_models_cache [of w k p] step [of p1] show ?thesis by simp
qed

lemma startup_keeps_entry:
  assumes "load_index_cache p = Some v"
  shows "load_index_cache (fst (snd (snd (startup w (p, ss))))) = Some v"
  using assms
  by (rule startup_cache_rule [where P = "\<lambda>c. c = Some v"]) (rule load_index_keeps_entry)

lemma startup_no_None_entry:
  assumes "load_index_cache p \<noteq> Some PyNone"
  shows "load_index_cache (fst (snd (snd (startup w (p, ss))))) \<noteq> Some PyNone"
  using assms
  by (rule startup_cache_rule [where P = "\<lambda>c. c \<noteq> Some PyNone"]) (simp add: load_index_not_None)

lemma startup_guard_unreached:
  assumes "load_index_cache p \<noteq> Some PyNone"
  shows "fst (startup w (p, ss)) \<noteq> Some (Stopped Index_is_None)"
proof (cases rule: startup_cases [where w = w and p = p and ss = ss])
  case (index_none k ev1 p1 ev2 p2)
  from index_none(2) configure_models_cache [of w k p] assms
  have "load_index_cache p1 \<noteq> Some PyNone" by simp
  from load_index_not_None [OF this, of w] index_none(3) show ?thesis by simp
qed simp_all

subsection \<open>What a run does to the stores\<close>

lemma script_process:
  "fst (stores_of (script w st)) = fst (snd (snd (startup w st)))"
  by (cases "startup w st" rule: prod_cases4)
    (auto simp: script_def stores_of_def split: option.splits prod.splits)

lemma script_outcome_startup:
  "fst (startup w st) = Some out \<Longrightarrow> outcome_of (script w st) = out"
  by (cases "startup w st" rule: prod_cases4) (auto simp: script_def outcome_of_def)

lemma script_keeps_entry:
  "load_index_cache p = Some v \<Longrightarrow> load_index_cache (fst (stores_of (script w (p, ss)))) = Some v"
  by (simp add: script_process startup_keeps_entry)

lemma script_no_None_entry:
  "load_index_cache p \<noteq> Some PyNone \<Longrightarrow>
     load_index_cache (fst (stores_of (script w (p, ss)))) \<noteq> Some PyNone"
  by (simp add: script_process startup_no_None_entry)

lemma script_guard_unreached:
  assumes "load_index_cache p \<noteq> Some PyNone"
  shows "outcome_of (script w (p, ss)) \<noteq> Stopped Index_is_None"
proof (cases "startup w (p, ss)" rule: prod_cases4)
  case (fields oo evs p' ss')
  show ?thesis
  proof (cases oo)
    case None
    with fields show ?thesis
      using handle_turn_idle [of w ss']
      by (auto simp: script_def outcome_of_def handle_turn_def append_message_def Let_def
          split: prod.splits option.splits sum.splits)
  next
    case (Some out)
    with fields startup_guard_unreached [OF assms, of w ss] show ?thesis
      by (auto simp: script_def outcome_of_def)
  qed
qed

subsection \<open>The runs of a session and the process store\<close>

lemma after_runs_keeps_entry:
  "load_index_cache p = Some v \<Longrightarrow> load_index_cache (fst (after_runs ws (p, ss))) = Some v"
proof (induction ws arbitrary: p ss)
  case Nil
  then show ?case by simp
next
  case (Cons w ws)
  obtain p' ss' where st: "stores_of (script w (p, ss)) = (p', ss')"
    by (cases "stores_of (script w (p, ss))") blast
  with script_keeps_entry [OF Cons.prems, of w ss] have "load_index_cache p' = Some v"
    by simp
  from Cons.IH [OF this, of ss'] st show ?case by simp
qed

lemma session_runs_guard_unreached:
  "load_index_cache p \<noteq> Some PyNone \<Longrightarrow>
     \<forall>r\<in>set (session_runs ws (p, ss)). outcome_of r \<noteq> Stopped Index_is_None"
proof (induction ws arbitrary: p ss)
  case Nil
  then show ?case by simp
next
  case (Cons w ws)
  obtain p' ss' where st: "stores_of (script w (p, ss)) = (p', ss')"
    by (cases "stores_of (script w (p, ss))") blast
  with script_no_None_entry [OF Cons.prems, of w ss] have "load_index_cache p' \<noteq> Some PyNone"
    by simp
  from Cons.IH [OF this, of ss'] st script_guard_unreached [OF Cons.prems, of w ss]
  show ?case by simp
qed

lemma script_cached_no_storage_access:
  assumes "load_index_cache p = Some v" and "x \<in> set (trace_of (script w (p, ss)))"
  shows "\<not> is_storage_access x"
proof (cases rule: startup_cases [where w = w and p = p and ss = ss])
  case (no_store e)
  with assms(2) show ?thesis
    by (auto simp: trace_of_def dest!: script_startup_Some)
next
  case (missing_key store)
  with assms(2) show ?thesis
    by (auto simp: trace_of_def dest!: script_startup_Some)
next
  case (setup_failed k ev1 p1)
  with assms(2) configure_models_events [of x w k p] show ?thesis
    by (auto simp: trace_of_def dest!: script_startup_Some)
next
  case (load_failed k ev1 p1 e ev2 p2)
  with assms(1) configure_models_cache [of w k p] have "load_index_cache p1 = Some v" by simp
  with load_failed(3) show ?thesis by (simp add: load_index_hit)
next
  case (index_none k ev1 p1 ev2 p2)
  with assms(1) configure_models_cache [of w k p] have "load_index_cache p1 = Some v" by simp
  with index_none(3) have "ev2 = []" by (simp add: load_index_hit)
  with index_none assms(2) configure_models_events [of x w k p] show ?thesis
    by (auto simp: trace_of_def dest!: script_startup_Some)
next
  case (engine_failed k ev1 p1 i ev2 p2 e ev3 ss3)
  with assms(1) configure_models_cache [of w k p] have "load_index_cache p1 = Some v" by simp
  with engine_failed(3) have "ev2 = []" by (simp add: load_index_hit)
  with engine_failed assms(2) configure_models_events [of x w k p]
    init_chat_engine_events [of x w i ss]
  show ?thesis
    by (auto simp: trace_of_def dest!: script_startup_Some)
next
  case (ready k ev1 p1 i ev2 p2 ev3 ss3)
  with assms(1) configure_models_cache [of w k p] have "load_index_cache p1 = Some v" by simp
  with ready(3) have "ev2 = []" by (simp add: load_index_hit)
  with ready assms(2) configure_models_events [of x w k p]
    init_chat_engine_events [of x w i ss] display_history_events [of x ss3]
    handle_turn_events [of x w "snd (display_history ss3)"]
  show ?thesis
    by (auto simp: trace_of_def dest!: script_startup_None)
qed

lemma session_runs_cached_no_storage_access:
  "load_index_cache p = Some v \<Longrightarrow>
     \<forall>r\<in>set (session_runs ws (p, ss)). \<forall>x\<in>set (trace_of r). \<not> is_storage_access x"
proof (induction ws arbitrary: p ss)
  case Nil
  then show ?case by simp
next
  case (Cons w ws)
  obtain p' ss' where st: "stores_of (script w (p, ss)) = (p', ss')"
    by (cases "stores_of (script w (p, ss))") blast
  with script_keeps_entry [OF Cons.prems, of w ss] have "load_index_cache p' = Some v"
    by simp
  from Cons.IH [OF this, of ss'] st script_cached_no_storage_access [OF Cons.prems, of _ w ss]
  show ?case by simp
qed

text \<open>
  Claim C6. \<^verbatim>\<open>load_index\<close> is memoised per process. Once a call has returned an index,
  the entry it left in the process store survives every later run of the script, and a
  later call, whatever the outside world would answer by then, returns the same index
  without making any call and without changing the store; no later run touches the menu
  file, the reviews directory or the persistence directory.
\<close>

theorem load_index_memoized:
  assumes "load_index w1 p = (Inr v, evs, p1)"
  shows "load_index w2 p1 = (Inr v, [], p1)
       \<and> load_index w2 (fst (after_runs ws (p1, ss))) = (Inr v, [], fst (after_runs ws (p1, ss)))
       \<and> (\<forall>r\<in>set (session_runs ws (p1, ss)). filter is_storage_access (trace_of r) = [])"
proof -
  from assms have entry: "load_index_cache p1 = Some v"
    by (rule load_index_stores)
  then have "load_index_cache (fst (after_runs ws (p1, ss))) = Some v"
    by (rule after_runs_keeps_entry)
  with entry session_runs_cached_no_storage_access [OF entry, of ws ss] show ?thesis
    by (simp add: load_index_hit filter_empty_conv)
qed

theorem load_index_memoized_witness:
  "load_index idle_world new_process =
     (Inr (PyObj 5),
      [St_spinner loading_spinner, Os_path_exists PERSIST_DIR,
       StorageContext_from_defaults PERSIST_DIR, Load_index_from_storage 4],
      new_process\<lparr>load_index_cache := Some (PyObj 5)\<rparr>)
   \<and> load_index corrupt_storage_world (new_process\<lparr>load_index_cache := Some (PyObj 5)\<rparr>) =
       (Inr (PyObj 5), [], new_process\<lparr>load_index_cache := Some (PyObj 5)\<rparr>)
   \<and> filter is_storage_access
        (trace_of (script asking_world (new_process\<lparr>load_index_cache := Some (PyObj 5)\<rparr>, new_session))) = []"
proof -
  have first: "load_index idle_world new_process =
     (Inr (PyObj 5),
      [St_spinner loading_spinner, Os_path_exists PERSIST_DIR,
       StorageContext_from_defaults PERSIST_DIR, Load_index_from_storage 4],
      new_process\<lparr>load_index_cache := Some (PyObj 5)\<rparr>)"
    by (simp add: load_index_def cache_resource_def load_index_body_def load_persisted_def
        idle_world_def new_process_def)
  from load_index_memoized [OF first, of corrupt_storage_world "[asking_world]" new_session]
  have "load_index corrupt_storage_world (new_process\<lparr>load_index_cache := Some (PyObj 5)\<rparr>) =
       (Inr (PyObj 5), [], new_process\<lparr>load_index_cache := Some (PyObj 5)\<rparr>)
     \<and> filter is_storage_access
        (trace_of (script asking_world (new_process\<lparr>load_index_cache := Some (PyObj 5)\<rparr>, new_session))) = []"
    by simp
  with first show ?thesis by blast
qed

text \<open>
  Claim C10. \<^verbatim>\<open>load_index\<close> never returns \<^verbatim>\<open>None\<close>: the function body returns an
  index object or raises; so does the memoised function as long as the entry of the
  process is not \<^verbatim>\<open>None\<close>, which is true of a new process and stays true after every
  run. So no run ends at the \<^verbatim>\<open>st.stop()\<close> of line 94.
\<close>

theorem load_index_never_None:
  "fst (load_index_body w) \<noteq> Inr PyNone
   \<and> fst (load_index w new_process) \<noteq> Inr PyNone
   \<and> (load_index_cache p \<noteq> Some PyNone \<longrightarrow>
        fst (load_index w p) \<noteq> Inr PyNone
        \<and> outcome_of (script w (p, ss)) \<noteq> Stopped Index_is_None
        \<and> load_index_cache (fst (stores_of (script w (p, ss)))) \<noteq> Some PyNone)
   \<and> (\<forall>r\<in>set (session_runs ws (new_process, ss)). outcome_of r \<noteq> Stopped Index_is_None)"
proof -
  have fresh: "load_index_cache new_process \<noteq> Some PyNone"
    by (simp add: new_process_def)
  show ?thesis
    using load_index_body_not_None [of w] load_index_not_None [OF fresh, of w]
      load_index_not_None [of p w] script_guard_unreached [of p w ss]
      script_no_None_entry [of p w ss] session_runs_guard_unreached [OF fresh, of ws ss]
    by blast
qed

theorem load_index_never_None_witness:
  "load_index_cache new_process \<noteq> Some PyNone
   \<and> fst (load_index idle_world new_process) \<noteq> Inr PyNone
   \<and> outcome_of (script idle_world (new_process, new_session)) \<noteq> Stopped Index_is_None
   \<and> outcome_of (script asking_world (stores_of (script idle_world (new_process, new_session))))
       \<noteq> Stopped Index_is_None"
proof -
  have fresh: "load_index_cache new_process \<noteq> Some PyNone"
    by (simp add: new_process_def)
  from load_index_never_None [where w = idle_world and p = new_process and ss = new_session
      and ws = "[idle_world, asking_world]"] fresh
  show ?thesis by simp
qed

text \<open>
  Claim C1, on a checkout without the persistence directory: the branch that is meant
  to read the menu file and the reviews directory stops at its first library call,
  because the module never imports \<^verbatim>\<open>SimpleDirectoryReader\<close> (nor
  \<^verbatim>\<open>VectorStoreIndex\<close>). Nothing is read, built or persisted, and the run ends with
  the \<^verbatim>\<open>NameError\<close>.
\<close>

theorem load_index_without_storage_raises:
  "load_index fresh_checkout_world new_process =
     (Inl (NameError ''SimpleDirectoryReader''),
      [St_spinner loading_spinner, Os_path_exists PERSIST_DIR,
       Print ''Storage not found. Rebuilding index...''],
      new_process)
   \<and> outcome_of (script fresh_checkout_world (new_process, new_session)) =
       Raised (NameError ''SimpleDirectoryReader'')"
proof -
  have absent: "\<not> path_exists fresh_checkout_world PERSIST_DIR"
    by (simp add: fresh_checkout_world_def idle_world_def PERSIST_DIR_def)
  have call: "load_index fresh_checkout_world new_process =
     (Inl (NameError ''SimpleDirectoryReader''),
      [St_spinner loading_spinner, Os_path_exists PERSIST_DIR,
       Print ''Storage not found. Rebuilding index...''],
      new_process)"
    by (simp add: load_index_miss new_process_def load_index_body_absent [OF absent])
  have "st_secrets fresh_checkout_world = Inr [''GOOGLE_API_KEY'' \<mapsto> ''secret-key'']"
    by (simp add: fresh_checkout_world_def idle_world_def)
  moreover have "configure_models fresh_checkout_world ''secret-key'' new_process =
      (True,
       [GoogleGenAI_call ''models/gemini-1.5-flash'' ''secret-key'',
        GoogleGenAIEmbedding_call ''models/embedding-001'' ''secret-key''],
       new_process\<lparr>Settings_llm := Some 1, Settings_embed_model := Some 2\<rparr>)"
    by (simp add: configure_models_def setup_clients_def fresh_checkout_world_def idle_world_def)
  moreover have "load_index fresh_checkout_world
        (new_process\<lparr>Settings_llm := Some 1, Settings_embed_model := Some 2\<rparr>) =
     (Inl (NameError ''SimpleDirectoryReader''),
      [St_spinner loading_spinner, Os_path_exists PERSIST_DIR,
       Print ''Storage not found. Rebuilding index...''],
      new_process\<lparr>Settings_llm := Some 1, Settings_embed_model := Some 2\<rparr>)"
    by (simp add: load_index_miss new_process_def load_index_body_absent [OF absent])
  ultimately have "outcome_of (script fresh_checkout_world (new_process, new_session)) =
       Raised (NameError ''SimpleDirectoryReader'')"
    by (simp add: script_def startup_def outcome_of_def)
  with call show ?thesis by simp
qed

subsection \<open>What a run does to the session\<close>

lemma startup_not_Completed: "fst (startup w (p, ss)) \<noteq> Some Completed"
  by (cases rule: startup_cases [where w = w and p = p and ss = ss]) simp_all

lemma script_session_cases:
  obtains (ended) out evs p' where "startup w (p, ss) = (Some out, evs, p', ss)"
      "script w (p, ss) = (out, evs, p', ss)" "out \<noteq> Completed"
  | (turn) evs p' ss4 where "startup w (p, ss) = (None, evs, p', ss4)"
      "messages ss4 = Some (seeded ss)" "chat_engine ss4 \<noteq> None"
      "chat_engine ss \<noteq> None \<longrightarrow> chat_engine ss4 = chat_engine ss"
      "script w (p, ss) =
         (fst (handle_turn w ss4), evs @ fst (snd (handle_turn w ss4)), p', snd (snd (handle_turn w ss4)))"
proof (cases "startup w (p, ss)" rule: prod_cases4)
  case (fields oo evs p' ss')
  show thesis
  proof (cases oo)
    case None
    with fields startup_ready_session [of w p ss evs p' ss'] script_startup_None [of w "(p, ss)" evs p' ss']
    show thesis by (intro turn [of evs p' ss']) simp_all
  next
    case (Some out)
    with fields startup_ended_session [of w p ss out evs p' ss'] startup_not_Completed [of w p ss]
      script_startup_Some [of w "(p, ss)" out evs p' ss']
    show thesis by (intro ended [of out evs p']) auto
  qed
qed

lemma script_extends:
  assumes "messages ss = Some ms"
  shows "\<exists>ext. messages (snd (stores_of (script w (p, ss)))) = Some (ms @ ext)"
proof (cases rule: script_session_cases [where w = w and p = p and ss = ss])
  case (ended out evs p')
  with assms show ?thesis by (simp add: stores_of_def)
next
  case (turn evs p' ss4)
  from turn(2) assms have "messages ss4 = Some ms" by (simp add: seeded_Some)
  from handle_turn_extends [OF this, of w] turn(5) show ?thesis
    by (simp add: stores_of_def)
qed

lemma script_seeds:
  assumes "messages ss = None"
  shows "messages (snd (stores_of (script w (p, ss)))) = None
       \<or> (\<exists>ext. messages (snd (stores_of (script w (p, ss)))) = Some (greeting # ext))"
proof (cases rule: script_session_cases [where w = w and p = p and ss = ss])
  case (ended out evs p')
  with assms show ?thesis by (simp add: stores_of_def)
next
  case (turn evs p' ss4)
  from turn(2) assms have "messages ss4 = Some [greeting]" by (simp add: seeded_None)
  from handle_turn_extends [OF this, of w] turn(5) show ?thesis
    by (simp add: stores_of_def)
qed

lemma script_chat_engine_kept:
  assumes "chat_engine ss = Some engine"
  shows "chat_engine (snd (stores_of (script w (p, ss)))) = Some engine"
proof (cases rule: script_session_cases [where w = w and p = p and ss = ss])
  case (ended out evs p')
  with assms show ?thesis by (simp add: stores_of_def)
next
  case (turn evs p' ss4)
  with assms show ?thesis by (simp add: stores_of_def handle_turn_chat_engine)
qed

lemma script_completed_messages:
  assumes "outcome_of (script w (p, ss)) = Completed"
  shows "\<exists>ext. messages (snd (stores_of (script w (p, ss)))) = Some (seeded ss @ ext)
           \<and> map role ext = (if submitted w then [''user'', ''assistant''] else [])"
proof (cases rule: script_session_cases [where w = w and p = p and ss = ss])
  case (ended out evs p')
  with assms show ?thesis by (simp add: outcome_of_def)
next
  case (turn evs p' ss4)
  with assms have "fst (handle_turn w ss4) = Completed" by (simp add: outcome_of_def)
  from handle_turn_completed [OF this turn(2)] turn(5) show ?thesis
    by (simp add: stores_of_def)
qed

subsection \<open>The message list over the runs of a session\<close>

lemma after_runs_extends:
  "messages ss = Some ms \<Longrightarrow> \<exists>ext. messages (snd (after_runs ws (p, ss))) = Some (ms @ ext)"
proof (induction ws arbitrary: p ss ms)
  case Nil
  then show ?case by simp
next
  case (Cons w ws)
  obtain p' ss' where st: "stores_of (script w (p, ss)) = (p', ss')"
    by (cases "stores_of (script w (p, ss))") blast
  with script_extends [OF Cons.prems, of w p] obtain ext1
    where "messages ss' = Some (ms @ ext1)" by auto
  from Cons.IH [OF this, of p'] st show ?case by auto
qed

lemma after_runs_seeds:
  "messages ss = None \<Longrightarrow>
     messages (snd (after_runs ws (p, ss))) = None
     \<or> (\<exists>ext. messages (snd (after_runs ws (p, ss))) = Some (greeting # ext))"
proof (induction ws arbitrary: p ss)
  case Nil
  then show ?case by simp
next
  case (Cons w ws)
  obtain p' ss' where st: "stores_of (script w (p, ss)) = (p', ss')"
    by (cases "stores_of (script w (p, ss))") blast
  show ?case
  proof (cases "messages ss'")
    case None
    from Cons.IH [OF this, of p'] st show ?thesis by simp
  next
    case (Some ms')
    with script_seeds [OF Cons.prems, of w p] st obtain ext1 where "ms' = greeting # ext1"
      by auto
    with Some after_runs_extends [of ss' ms' ws p'] st show ?thesis by auto
  qed
qed

text \<open>
  Claim C8. The message list is append-only: whatever a run does and however it ends,
  the list the session held before is a prefix of the list it holds after, and this
  stays so over any number of runs; a session without a list ends without one or with
  a list that starts with the seed.
\<close>

theorem messages_append_only:
  "(messages ss = Some ms \<longrightarrow>
      (\<exists>ms'. messages (snd (stores_of (script w (p, ss)))) = Some ms' \<and> prefix ms ms')
      \<and> (\<exists>ms'. messages (snd (after_runs ws (p, ss))) = Some ms' \<and> prefix ms ms'))
   \<and> (messages ss = None \<longrightarrow>
        messages (snd (after_runs ws (p, ss))) = None
        \<or> (\<exists>ext. messages (snd (after_runs ws (p, ss))) = Some (greeting # ext)))"
  using script_extends [of ss ms w p] after_runs_extends [of ss ms ws p] after_runs_seeds [of ss ws p]
  by (auto simp: prefix_def)

subsection \<open>Runs of the sample worlds\<close>

lemmas sample_worlds =
  secrets_def idle_world_def asking_world_def failing_chat_world_def no_key_world_def bad_llm_world_def
  bad_embedding_world_def fresh_checkout_world_def corrupt_storage_world_def bad_engine_world_def

lemmas sample_stores = new_process_def new_session_def warm_process_def greeted_session_def

lemmas script_sections =
  script_def startup_def configure_models_def setup_clients_def load_index_def cache_resource_def
  load_index_body_def load_persisted_def init_chat_engine_def display_history_def seeded_def
  handle_turn_def append_message_def

lemma first_idle_run:
  "outcome_of (script idle_world (new_process, new_session)) = Completed
   \<and> stores_of (script idle_world (new_process, new_session)) = (warm_process, greeted_session)"
  by (simp add: script_sections sample_worlds sample_stores outcome_of_def stores_of_def PERSIST_DIR_def)

lemma first_idle_startup:
  "fst (startup idle_world (new_process, new_session)) = None"
  by (simp add: script_sections sample_worlds sample_stores PERSIST_DIR_def)

lemma idle_run:
  "outcome_of (script idle_world (warm_process, ss)) = Completed"
  by (simp add: script_sections sample_worlds sample_stores outcome_of_def split: option.splits)

lemma asking_run:
  "outcome_of (script asking_world (warm_process, greeted_session)) = Completed
   \<and> stores_of (script asking_world (warm_process, greeted_session)) =
       (warm_process,
        greeted_session\<lparr>messages :=
          Some [greeting, user_message ''What is good?'', assistant_message ''Try the grilled fish.'']\<rparr>)"
  by (simp add: script_sections sample_worlds sample_stores outcome_of_def stores_of_def)

lemma asking_again_run:
  "outcome_of (script asking_world
      (warm_process,
       greeted_session\<lparr>messages :=
          Some [greeting, user_message ''What is good?'', assistant_message ''Try the grilled fish.'']\<rparr>))
     = Completed"
  by (simp add: script_sections sample_worlds sample_stores outcome_of_def stores_of_def)

lemma failing_run:
  "outcome_of (script failing_chat_world (warm_process, greeted_session)) =
     Raised (Error ''503 Service Unavailable'')
   \<and> stores_of (script failing_chat_world (warm_process, greeted_session)) =
       (warm_process, greeted_session\<lparr>messages := Some [greeting, user_message ''What is good?'']\<rparr>)"
  by (simp add: script_sections sample_worlds sample_stores outcome_of_def stores_of_def)

lemma failing_startup:
  "startup failing_chat_world (warm_process, greeted_session) =
     (None,
      [St_set_page_config page_title page_icon ''centered'',
       GoogleGenAI_call ''models/gemini-1.5-flash'' ''secret-key'',
       GoogleGenAIEmbedding_call ''models/embedding-001'' ''secret-key'',
       St_title title_text, St_caption caption_text,
       St_chat_message ''assistant'', St_markdown (content greeting)],
      warm_process, greeted_session)"
  by (simp add: script_sections sample_worlds sample_stores greeting_def)

theorem messages_append_only_witness:
  "messages greeted_session = Some [greeting]
   \<and> (\<exists>ms'. messages (snd (stores_of (script failing_chat_world (warm_process, greeted_session)))) = Some ms'
          \<and> prefix [greeting] ms')
   \<and> (\<exists>ms'. messages (snd (after_runs [asking_world, failing_chat_world] (warm_process, greeted_session)))
            = Some ms' \<and> prefix [greeting] ms')
   \<and> messages new_session = None
   \<and> (messages (snd (after_runs [idle_world] (new_process, new_session))) = None
        \<or> (\<exists>ext. messages (snd (after_runs [idle_world] (new_process, new_session))) = Some (greeting # ext)))"
proof -
  have some: "messages greeted_session = Some [greeting]"
    by (simp add: greeted_session_def)
  have none: "messages new_session = None"
    by (simp add: new_session_def)
  from some none
    messages_append_only [where ss = greeted_session and ms = "[greeting]" and w = failing_chat_world
      and p = warm_process and ws = "[asking_world, failing_chat_world]"]
    messages_append_only [where ss = new_session and p = new_process and ws = "[idle_world]"]
  show ?thesis by blast
qed

subsection \<open>The chat engine over the runs of a session\<close>

lemma startup_engine_events:
  assumes "chat_engine ss = Some engine"
  shows "filter is_engine_creation (fst (snd (startup w (p, ss)))) = []"
proof -
  have "\<not> is_engine_creation x" if "x \<in> set (fst (snd (startup w (p, ss))))" for x
  proof (cases rule: startup_cases [where w = w and p = p and ss = ss])
    case (no_store e)
    with that show ?thesis by auto
  next
    case (missing_key store)
    with that show ?thesis by auto
  next
    case (setup_failed k ev1 p1)
    with that configure_models_events [of x w k p] show ?thesis by auto
  next
    case (load_failed k ev1 p1 e ev2 p2)
    with that configure_models_events [of x w k p] load_index_events [of x w p1]
    show ?thesis by auto
  next
    case (index_none k ev1 p1 ev2 p2)
    with that configure_models_events [of x w k p] load_index_events [of x w p1]
    show ?thesis by auto
  next
    case (engine_failed k ev1 p1 i ev2 p2 e ev3 ss3)
    with assms show ?thesis by (simp add: init_chat_engine_kept)
  next
    case (ready k ev1 p1 i ev2 p2 ev3 ss3)
    with assms have "ev3 = []" by (simp add: init_chat_engine_kept)
    with ready that configure_models_events [of x w k p] load_index_events [of x w p1]
      display_history_events [of x ss3]
    show ?thesis by auto
  qed
  then show ?thesis by (simp add: filter_empty_conv)
qed

lemma startup_creates_engine:
  assumes "chat_engine ss = None" and "startup w (p, ss) = (None, evs, p', ss4)"
  shows "\<exists>index engine. as_chat_engine w index ''context'' SYSTEM_PROMPT = Inr engine
           \<and> filter is_engine_creation evs = [As_chat_engine index ''context'' SYSTEM_PROMPT]
           \<and> chat_engine ss4 = Some engine"
proof (cases rule: startup_cases [where w = w and p = p and ss = ss])
  case (ready k ev1 p1 i ev2 p2 ev3 ss3)
  from init_chat_engine_created [OF assms(1) ready(4)] obtain engine
    where engine: "as_chat_engine w i ''context'' SYSTEM_PROMPT = Inr engine"
      "ev3 = [As_chat_engine i ''context'' SYSTEM_PROMPT]" "ss3 = ss\<lparr>chat_engine := Some engine\<rparr>"
    by blast
  have "filter is_engine_creation ev1 = []"
    using configure_models_True_events [OF ready(2)] by simp
  moreover have "\<not> is_engine_creation x" if "x \<in> set ev2" for x
    using load_index_events [of x w p1] that ready(3) by auto
  then have "filter is_engine_creation ev2 = []"
    by (simp add: filter_empty_conv)
  moreover have "\<not> is_engine_creation x" if "x \<in> set (fst (display_history ss3))" for x
    using display_history_events [of x ss3] that by auto
  then have "filter is_engine_creation (fst (display_history ss3)) = []"
    by (simp add: filter_empty_conv)
  ultimately have "filter is_engine_creation evs = [As_chat_engine i ''context'' SYSTEM_PROMPT]"
    using ready(5) assms(2) engine(2) by simp
  moreover have "chat_engine ss4 = Some engine"
    using ready(5) assms(2) engine(3) by (simp add: display_history_chat_engine)
  ultimately show ?thesis using engine(1) by blast
qed (use assms in simp_all)

lemma handle_turn_no_creation:
  "filter is_engine_creation (fst (snd (handle_turn w ss))) = []"
proof -
  have "\<not> is_engine_creation x" if "x \<in> set (fst (snd (handle_turn w ss)))" for x
    using handle_turn_events [OF that] by auto
  then show ?thesis by (simp add: filter_empty_conv)
qed

lemma handle_turn_chat_calls:
  assumes "chat_engine ss = Some engine" and "x \<in> set (fst (snd (handle_turn w ss)))"
  shows "chat_call_engine x = None \<or> chat_call_engine x = Some engine"
  using handle_turn_events [OF assms(2)] assms(1) by auto

lemma startup_chat_calls:
  assumes "x \<in> set (fst (snd (startup w (p, ss))))"
  shows "chat_call_engine x = None"
proof (cases rule: startup_cases [where w = w and p = p and ss = ss])
  case (no_store e)
  with assms show ?thesis by auto
next
  case (missing_key store)
  with assms show ?thesis by auto
next
  case (setup_failed k ev1 p1)
  with assms configure_models_events [of x w k p] show ?thesis by auto
next
  case (load_failed k ev1 p1 e ev2 p2)
  with assms configure_models_events [of x w k p] load_index_events [of x w p1]
  show ?thesis by auto
next
  case (index_none k ev1 p1 ev2 p2)
  with assms configure_models_events [of x w k p] load_index_events [of x w p1]
  show ?thesis by auto
next
  case (engine_failed k ev1 p1 i ev2 p2 e ev3 ss3)
  with assms configure_models_events [of x w k p] load_index_events [of x w p1]
    init_chat_engine_events [of x w i ss]
  show ?thesis by auto
next
  case (ready k ev1 p1 i ev2 p2 ev3 ss3)
  with assms configure_models_events [of x w k p] load_index_events [of x w p1]
    init_chat_engine_events [of x w i ss] display_history_events [of x ss3]
  show ?thesis by auto
qed

lemma script_engine_reused:
  assumes "chat_engine ss = Some engine"
  shows "chat_engine (snd (stores_of (script w (p, ss)))) = Some engine
       \<and> filter is_engine_creation (trace_of (script w (p, ss))) = []
       \<and> (\<forall>x\<in>set (trace_of (script w (p, ss))).
             chat_call_engine x = None \<or> chat_call_engine x = Some engine)"
proof (cases rule: script_session_cases [where w = w and p = p and ss = ss])
  case (ended out evs p')
  with startup_engine_events [OF assms, of w p] startup_chat_calls [of _ w p ss] assms
  show ?thesis by (simp add: stores_of_def trace_of_def)
next
  case (turn evs p' ss4)
  from turn(4) assms have ss4: "chat_engine ss4 = Some engine" by simp
  with turn startup_engine_events [OF assms, of w p] startup_chat_calls [of _ w p ss]
    handle_turn_no_creation [of w ss4] handle_turn_chat_calls [OF ss4, of _ w]
  show ?thesis
    by (auto simp: stores_of_def trace_of_def handle_turn_chat_engine)
qed

lemma session_runs_engine_reused:
  "chat_engine ss = Some engine \<Longrightarrow>
     \<forall>r\<in>set (session_runs ws (p, ss)).
        chat_engine (snd (stores_of r)) = Some engine
        \<and> filter is_engine_creation (trace_of r) = []
        \<and> (\<forall>x\<in>set (trace_of r). chat_call_engine x = None \<or> chat_call_engine x = Some engine)"
proof (induction ws arbitrary: p ss)
  case Nil
  then show ?case by simp
next
  case (Cons w ws)
  obtain p' ss' where st: "stores_of (script w (p, ss)) = (p', ss')"
    by (cases "stores_of (script w (p, ss))") blast
  from script_engine_reused [OF Cons.prems, of w p] st have "chat_engine ss' = Some engine"
    by simp
  from Cons.IH [OF this, of p'] script_engine_reused [OF Cons.prems, of w p] st
  show ?case by simp
qed

subsection \<open>Failures and error displays\<close>

lemma handle_turn_outcome:
  "fst (handle_turn w ss) = Completed \<or> (\<exists>e. fst (handle_turn w ss) = Raised e)"
  by (auto simp: handle_turn_def append_message_def Let_def split: option.splits sum.splits)

lemma handle_turn_no_error_display:
  "filter is_error_display (fst (snd (handle_turn w ss))) = []"
proof -
  have "\<not> is_error_display x" if "x \<in> set (fst (snd (handle_turn w ss)))" for x
    using handle_turn_events [OF that] by auto
  then show ?thesis by (simp add: filter_empty_conv)
qed

lemma load_index_no_error_display:
  "filter is_error_display (fst (snd (load_index w p))) = []"
proof -
  have "\<not> is_error_display x" if "x \<in> set (fst (snd (load_index w p)))" for x
    using load_index_events [OF that] by auto
  then show ?thesis by (simp add: filter_empty_conv)
qed

lemma init_chat_engine_no_error_display:
  "filter is_error_display (fst (snd (init_chat_engine w i ss))) = []"
proof -
  have "\<not> is_error_display x" if "x \<in> set (fst (snd (init_chat_engine w i ss)))" for x
    using init_chat_engine_events [OF that] by auto
  then show ?thesis by (simp add: filter_empty_conv)
qed

lemma display_history_no_error_display:
  "filter is_error_display (fst (display_history ss)) = []"
proof -
  have "\<not> is_error_display x" if "x \<in> set (fst (display_history ss))" for x
    using display_history_events [OF that] by auto
  then show ?thesis by (simp add: filter_empty_conv)
qed

lemma startup_error_display:
  "(filter is_error_display (fst (snd (startup w (p, ss)))) \<noteq> []) =
     (fst (startup w (p, ss)) = Some (Stopped Missing_api_key)
      \<or> fst (startup w (p, ss)) = Some (Stopped Client_setup_failed))"
proof (cases rule: startup_cases [where w = w and p = p and ss = ss])
  case (no_store e)
  then show ?thesis by simp
next
  case (missing_key store)
  then show ?thesis by simp
next
  case (setup_failed k ev1 p1)
  with configure_models_False [OF setup_failed(2)] show ?thesis by auto
next
  case (load_failed k ev1 p1 e ev2 p2)
  with configure_models_True_events [OF load_failed(2)] load_index_no_error_display [of w p1]
  show ?thesis by simp
next
  case (index_none k ev1 p1 ev2 p2)
  with configure_models_True_events [OF index_none(2)] load_index_no_error_display [of w p1]
  show ?thesis by simp
next
  case (engine_failed k ev1 p1 i ev2 p2 e ev3 ss3)
  with configure_models_True_events [OF engine_failed(2)] load_index_no_error_display [of w p1]
    init_chat_engine_no_error_display [of w i ss]
  show ?thesis by simp
next
  case (ready k ev1 p1 i ev2 p2 ev3 ss3)
  with configure_models_True_events [OF ready(2)] load_index_no_error_display [of w p1]
    init_chat_engine_no_error_display [of w i ss] display_history_no_error_display [of ss3]
  show ?thesis by simp
qed

lemma script_error_display:
  "(filter is_error_display (trace_of (script w (p, ss))) \<noteq> []) =
     (outcome_of (script w (p, ss)) = Stopped Missing_api_key
      \<or> outcome_of (script w (p, ss)) = Stopped Client_setup_failed)"
proof (cases rule: script_session_cases [where w = w and p = p and ss = ss])
  case (ended out evs p')
  with startup_error_display [of w p ss] show ?thesis
    by (simp add: trace_of_def outcome_of_def)
next
  case (turn evs p' ss4)
  with startup_error_display [of w p ss] handle_turn_no_error_display [of w ss4]
    handle_turn_outcome [of w ss4]
  show ?thesis
    by (auto simp: trace_of_def outcome_of_def)
qed

lemma script_setup_stop:
  assumes "outcome_of (script w (p, ss)) = Stopped Client_setup_failed"
  shows "\<exists>k e. secrets w ''GOOGLE_API_KEY'' = Some k
           \<and> (GoogleGenAI w ''models/gemini-1.5-flash'' k = Inl e
              \<or> GoogleGenAIEmbedding w ''models/embedding-001'' k = Inl e)"
proof (cases rule: startup_cases [where w = w and p = p and ss = ss])
  case (setup_failed k ev1 p1)
  from configure_models_False [OF setup_failed(2)] obtain e evs
    where "setup_clients w k p = (Inl e, evs, p1)" by blast
  then have "GoogleGenAI w ''models/gemini-1.5-flash'' k = Inl e
      \<or> GoogleGenAIEmbedding w ''models/embedding-001'' k = Inl e"
    by (auto simp: setup_clients_def split: sum.splits)
  with setup_failed(1) show ?thesis by blast
next
  case (ready k ev1 p1 i ev2 p2 ev3 ss3)
  with assms handle_turn_outcome [of w "snd (display_history ss3)"] show ?thesis
    by (auto simp: outcome_of_def dest!: script_startup_None)
qed (use assms in \<open>auto simp: outcome_of_def dest!: script_startup_Some\<close>)

lemma script_llm_fails:
  assumes "secrets w ''GOOGLE_API_KEY'' = Some k"
    and "GoogleGenAI w ''models/gemini-1.5-flash'' k = Inl e"
  shows "script w (p, ss) =
     (Stopped Client_setup_failed,
      [St_set_page_config page_title page_icon ''centered'',
       GoogleGenAI_call ''models/gemini-1.5-flash'' k,
       St_error (setup_error_prefix @ str e)],
      p, ss)"
  using assms secrets_Some [OF assms(1)]
  by (auto simp: script_def startup_def configure_models_def setup_clients_def)

lemma script_embedding_fails:
  assumes "secrets w ''GOOGLE_API_KEY'' = Some k"
    and "GoogleGenAI w ''models/gemini-1.5-flash'' k = Inr llm"
    and "GoogleGenAIEmbedding w ''models/embedding-001'' k = Inl e"
  shows "script w (p, ss) =
     (Stopped Client_setup_failed,
      [St_set_page_config page_title page_icon ''centered'',
       GoogleGenAI_call ''models/gemini-1.5-flash'' k,
       GoogleGenAIEmbedding_call ''models/embedding-001'' k,
       St_error (setup_error_prefix @ str e)],
      p\<lparr>Settings_llm := Some llm\<rparr>, ss)"
  using assms secrets_Some [OF assms(1)]
  by (auto simp: script_def startup_def configure_models_def setup_clients_def)

lemma script_load_raises:
  assumes "secrets w ''GOOGLE_API_KEY'' = Some k"
    and "configure_models w k p = (True, ev1, p1)"
    and "load_index w p1 = (Inl e, ev2, p2)"
  shows "script w (p, ss) =
     (Raised e, St_set_page_config page_title page_icon ''centered'' # ev1 @ ev2, p1, ss)"
  using assms load_index_raises_keeps [OF assms(3)] secrets_Some [OF assms(1)]
  by (auto simp: script_def startup_def)

lemma script_engine_raises:
  assumes "secrets w ''GOOGLE_API_KEY'' = Some k"
    and "configure_models w k p = (True, ev1, p1)"
    and "load_index w p1 = (Inr (PyObj i), ev2, p2)"
    and "chat_engine ss = None"
    and "as_chat_engine w i ''context'' SYSTEM_PROMPT = Inl e"
  shows "script w (p, ss) =
     (Raised e,
      St_set_page_config page_title page_icon ''centered'' # ev1 @ ev2 @
        [As_chat_engine i ''context'' SYSTEM_PROMPT],
      p2, ss)"
  using assms secrets_Some [OF assms(1)]
  by (auto simp: script_def startup_def init_chat_engine_def)

lemma script_chat_raises:
  assumes "startup w (p, ss) = (None, evs, p', ss4)" and "chat_engine ss4 = Some engine"
    and "chat_input w = Some q" and "q \<noteq> []" and "chat w engine q = Inl e"
  shows "script w (p, ss) =
     (Raised e,
      evs @ [St_chat_input chat_prompt, St_chat_message ''user'', St_markdown q,
             St_chat_message ''assistant'', St_spinner ''Thinking...'', Chat_call engine q],
      p', ss4\<lparr>messages := Some (seeded ss @ [user_message q])\<rparr>)"
proof -
  from startup_ready_session [OF assms(1)] have "messages ss4 = Some (seeded ss)"
    by simp
  from handle_turn_failure [OF assms(3) assms(4) this assms(2) assms(5)]
    script_startup_None [OF assms(1)]
  show ?thesis by simp
qed

lemma startup_ready_no_error_display:
  assumes "startup w (p, ss) = (None, evs, p', ss4)"
  shows "filter is_error_display evs = []"
  using startup_error_display [of w p ss] assms by simp

lemma startup_no_chat_call:
  "filter is_chat_call (fst (snd (startup w (p, ss)))) = []"
proof -
  have "\<not> is_chat_call x" if "x \<in> set (fst (snd (startup w (p, ss))))" for x
    using startup_chat_calls [OF that] by (cases x) simp_all
  then show ?thesis by (simp add: filter_empty_conv)
qed

text \<open>
  Claim C4. An exception raised by the construction of the generation client, or of the
  embedding client, is caught: the run displays one error whose text ends with the
  exception's own message and stops at line 40. An error display appears in a run
  exactly when the run stops at line 26 or at line 40, and a stop at line 40 happens
  only when one of the two constructions raised. Every other failure leaves the run as
  the exception itself: a failure of \<^verbatim>\<open>load_index\<close>, of the creation of the chat
  engine, of the chat call, or of the read of the secret store.
\<close>

theorem client_setup_failure_caught:
  "(secrets w ''GOOGLE_API_KEY'' = Some k \<and> GoogleGenAI w ''models/gemini-1.5-flash'' k = Inl e \<longrightarrow>
      script w (p, ss) =
        (Stopped Client_setup_failed,
         [St_set_page_config page_title page_icon ''centered'',
          GoogleGenAI_call ''models/gemini-1.5-flash'' k,
          St_error (setup_error_prefix @ str e)],
         p, ss))
   \<and> (secrets w ''GOOGLE_API_KEY'' = Some k \<and> GoogleGenAI w ''models/gemini-1.5-flash'' k = Inr llm
        \<and> GoogleGenAIEmbedding w ''models/embedding-001'' k = Inl e \<longrightarrow>
      script w (p, ss) =
        (Stopped Client_setup_failed,
         [St_set_page_config page_title page_icon ''centered'',
          GoogleGenAI_call ''models/gemini-1.5-flash'' k,
          GoogleGenAIEmbedding_call ''models/embedding-001'' k,
          St_error (setup_error_prefix @ str e)],
         p\<lparr>Settings_llm := Some llm\<rparr>, ss))
   \<and> ((filter is_error_display (trace_of (script w (p, ss))) \<noteq> []) =
        (outcome_of (script w (p, ss)) = Stopped Missing_api_key
         \<or> outcome_of (script w (p, ss)) = Stopped Client_setup_failed))
   \<and> (outcome_of (script w (p, ss)) = Stopped Client_setup_failed \<longrightarrow>
        (\<exists>k' e'. secrets w ''GOOGLE_API_KEY'' = Some k'
           \<and> (GoogleGenAI w ''models/gemini-1.5-flash'' k' = Inl e'
              \<or> GoogleGenAIEmbedding w ''models/embedding-001'' k' = Inl e')))
   \<and> (secrets w ''GOOGLE_API_KEY'' = Some k \<and> configure_models w k p = (True, ev1, p1)
        \<and> load_index w p1 = (Inl e, ev2, p2) \<longrightarrow>
      outcome_of (script w (p, ss)) = Raised e)
   \<and> (secrets w ''GOOGLE_API_KEY'' = Some k \<and> configure_models w k p = (True, ev1, p1)
        \<and> load_index w p1 = (Inr (PyObj i), ev2, p2) \<and> chat_engine ss = None
        \<and> as_chat_engine w i ''context'' SYSTEM_PROMPT = Inl e \<longrightarrow>
      outcome_of (script w (p, ss)) = Raised e)
   \<and> (startup w (p, ss) = (None, evs, p', ss4) \<and> chat_engine ss4 = Some engine
        \<and> chat_input w = Some q \<and> q \<noteq> [] \<and> chat w engine q = Inl e \<longrightarrow>
      outcome_of (script w (p, ss)) = Raised e)
   \<and> (st_secrets w = Inl e \<longrightarrow> outcome_of (script w (p, ss)) = Raised e)"
proof -
  have store: "st_secrets w = Inl e \<longrightarrow> outcome_of (script w (p, ss)) = Raised e"
    by (simp add: no_secret_store_raises outcome_of_def)
  have display: "(filter is_error_display (trace_of (script w (p, ss))) \<noteq> []) =
        (outcome_of (script w (p, ss)) = Stopped Missing_api_key
         \<or> outcome_of (script w (p, ss)) = Stopped Client_setup_failed)"
    by (rule script_error_display)
  have only: "outcome_of (script w (p, ss)) = Stopped Client_setup_failed \<longrightarrow>
        (\<exists>k' e'. secrets w ''GOOGLE_API_KEY'' = Some k'
           \<and> (GoogleGenAI w ''models/gemini-1.5-flash'' k' = Inl e'
              \<or> GoogleGenAIEmbedding w ''models/embedding-001'' k' = Inl e'))"
    using script_setup_stop [of w p ss] by blast
  have load: "secrets w ''GOOGLE_API_KEY'' = Some k \<and> configure_models w k p = (True, ev1, p1)
        \<and> load_index w p1 = (Inl e, ev2, p2) \<longrightarrow>
      outcome_of (script w (p, ss)) = Raised e"
    by (simp add: script_load_raises outcome_of_def)
  have engine: "secrets w ''GOOGLE_API_KEY'' = Some k \<and> configure_models w k p = (True, ev1, p1)
        \<and> load_index w p1 = (Inr (PyObj i), ev2, p2) \<and> chat_engine ss = None
        \<and> as_chat_engine w i ''context'' SYSTEM_PROMPT = Inl e \<longrightarrow>
      outcome_of (script w (p, ss)) = Raised e"
    by (simp add: script_engine_raises outcome_of_def)
  have turn: "startup w (p, ss) = (None, evs, p', ss4) \<and> chat_engine ss4 = Some engine
        \<and> chat_input w = Some q \<and> q \<noteq> [] \<and> chat w engine q = Inl e \<longrightarrow>
      outcome_of (script w (p, ss)) = Raised e"
    by (simp add: script_chat_raises outcome_of_def)
  from display only load engine turn store show ?thesis
    by (simp add: script_llm_fails script_embedding_fails)
qed

theorem client_setup_failure_caught_witness:
  "secrets bad_llm_world ''GOOGLE_API_KEY'' = Some ''secret-key''
   \<and> GoogleGenAI bad_llm_world ''models/gemini-1.5-flash'' ''secret-key'' = Inl (Error ''invalid API key'')
   \<and> script bad_llm_world (new_process, new_session) =
        (Stopped Client_setup_failed,
         [St_set_page_config page_title page_icon ''centered'',
          GoogleGenAI_call ''models/gemini-1.5-flash'' ''secret-key'',
          St_error (setup_error_prefix @ ''invalid API key'')],
         new_process, new_session)
   \<and> GoogleGenAI bad_embedding_world ''models/gemini-1.5-flash'' ''secret-key'' = Inr 1
   \<and> GoogleGenAIEmbedding bad_embedding_world ''models/embedding-001'' ''secret-key''
        = Inl (Error ''invalid API key'')
   \<and> outcome_of (script bad_embedding_world (new_process, new_session)) = Stopped Client_setup_failed
   \<and> load_index corrupt_storage_world
        (new_process\<lparr>Settings_llm := Some 1, Settings_embed_model := Some 2\<rparr>) =
        (Inl (Error ''No index in storage context''),
         [St_spinner loading_spinner, Os_path_exists PERSIST_DIR,
          StorageContext_from_defaults PERSIST_DIR, Load_index_from_storage 4],
         new_process\<lparr>Settings_llm := Some 1, Settings_embed_model := Some 2\<rparr>)
   \<and> outcome_of (script corrupt_storage_world (new_process, new_session)) =
        Raised (Error ''No index in storage context'')
   \<and> as_chat_engine bad_engine_world 5 ''context'' SYSTEM_PROMPT = Inl (Error ''unknown chat mode'')
   \<and> outcome_of (script bad_engine_world (new_process, new_session)) = Raised (Error ''unknown chat mode'')
   \<and> chat failing_chat_world 6 ''What is good?'' = Inl (Error ''503 Service Unavailable'')
   \<and> outcome_of (script failing_chat_world (warm_process, greeted_session)) =
        Raised (Error ''503 Service Unavailable'')
   \<and> st_secrets no_secrets_world = Inl (Error ''No secrets found.'')
   \<and> outcome_of (script no_secrets_world (new_process, new_session)) =
        Raised (Error ''No secrets found.'')"
proof -
  have no_store: "st_secrets no_secrets_world = Inl (Error ''No secrets found.'')"
    by (simp add: no_secrets_world_def idle_world_def)
  have key: "secrets bad_llm_world ''GOOGLE_API_KEY'' = Some ''secret-key''"
      "secrets bad_embedding_world ''GOOGLE_API_KEY'' = Some ''secret-key''"
      "secrets corrupt_storage_world ''GOOGLE_API_KEY'' = Some ''secret-key''"
      "secrets bad_engine_world ''GOOGLE_API_KEY'' = Some ''secret-key''"
    by (simp_all add: sample_worlds)
  have llm: "GoogleGenAI bad_llm_world ''models/gemini-1.5-flash'' ''secret-key'' = Inl (Error ''invalid API key'')"
      "GoogleGenAI bad_embedding_world ''models/gemini-1.5-flash'' ''secret-key'' = Inr 1"
    by (simp_all add: sample_worlds)
  have embedding: "GoogleGenAIEmbedding bad_embedding_world ''models/embedding-001'' ''secret-key''
        = Inl (Error ''invalid API key'')"
    by (simp add: sample_worlds)
  have configured:
    "configure_models corrupt_storage_world ''secret-key'' new_process =
       (True,
        [GoogleGenAI_call ''models/gemini-1.5-flash'' ''secret-key'',
         GoogleGenAIEmbedding_call ''models/embedding-001'' ''secret-key''],
        new_process\<lparr>Settings_llm := Some 1, Settings_embed_model := Some 2\<rparr>)"
    "configure_models bad_engine_world ''secret-key'' new_process =
       (True,
        [GoogleGenAI_call ''models/gemini-1.5-flash'' ''secret-key'',
         GoogleGenAIEmbedding_call ''models/embedding-001'' ''secret-key''],
        new_process\<lparr>Settings_llm := Some 1, Settings_embed_model := Some 2\<rparr>)"
    by (simp_all add: configure_models_def setup_clients_def sample_worlds)
  have corrupt: "load_index corrupt_storage_world
        (new_process\<lparr>Settings_llm := Some 1, Settings_embed_model := Some 2\<rparr>) =
        (Inl (Error ''No index in storage context''),
         [St_spinner loading_spinner, Os_path_exists PERSIST_DIR,
          StorageContext_from_defaults PERSIST_DIR, Load_index_from_storage 4],
         new_process\<lparr>Settings_llm := Some 1, Settings_embed_model := Some 2\<rparr>)"
    by (simp add: load_index_def cache_resource_def load_index_body_def load_persisted_def
        sample_worlds new_process_def)
  have loaded: "load_index bad_engine_world
        (new_process\<lparr>Settings_llm := Some 1, Settings_embed_model := Some 2\<rparr>) =
        (Inr (PyObj 5),
         [St_spinner loading_spinner, Os_path_exists PERSIST_DIR,
          StorageContext_from_defaults PERSIST_DIR, Load_index_from_storage 4],
         new_process\<lparr>Settings_llm := Some 1, Settings_embed_model := Some 2,
           load_index_cache := Some (PyObj 5)\<rparr>)"
    by (simp add: load_index_def cache_resource_def load_index_body_def load_persisted_def
        sample_worlds new_process_def)
  have no_engine: "chat_engine new_session = None"
    by (simp add: new_session_def)
  have engine: "as_chat_engine bad_engine_world 5 ''context'' SYSTEM_PROMPT = Inl (Error ''unknown chat mode'')"
    by (simp add: sample_worlds)
  have turn: "chat_engine greeted_session = Some 6" "chat_input failing_chat_world = Some ''What is good?''"
      "''What is good?'' \<noteq> []"
      "chat failing_chat_world 6 ''What is good?'' = Inl (Error ''503 Service Unavailable'')"
    by (simp_all add: sample_worlds greeted_session_def)
  have "script bad_llm_world (new_process, new_session) =
        (Stopped Client_setup_failed,
         [St_set_page_config page_title page_icon ''centered'',
          GoogleGenAI_call ''models/gemini-1.5-flash'' ''secret-key'',
          St_error (setup_error_prefix @ str (Error ''invalid API key''))],
         new_process, new_session)"
    using client_setup_failure_caught [where w = bad_llm_world and k = "''secret-key''"
        and e = "Error ''invalid API key''" and p = new_process and ss = new_session]
      key(1) llm(1) by blast
  moreover have "script bad_embedding_world (new_process, new_session) =
        (Stopped Client_setup_failed,
         [St_set_page_config page_title page_icon ''centered'',
          GoogleGenAI_call ''models/gemini-1.5-flash'' ''secret-key'',
          GoogleGenAIEmbedding_call ''models/embedding-001'' ''secret-key'',
          St_error (setup_error_prefix @ str (Error ''invalid API key''))],
         new_process\<lparr>Settings_llm := Some 1\<rparr>, new_session)"
    using client_setup_failure_caught [where w = bad_embedding_world and k = "''secret-key''"
        and e = "Error ''invalid API key''" and p = new_process and ss = new_session and llm = 1]
      key(2) llm(2) embedding by blast
  moreover have "outcome_of (script corrupt_storage_world (new_process, new_session)) =
        Raised (Error ''No index in storage context'')"
    using client_setup_failure_caught [where w = corrupt_storage_world and k = "''secret-key''"
        and e = "Error ''No index in storage context''" and p = new_process and ss = new_session]
      key(3) configured(1) corrupt by blast
  moreover have "outcome_of (script bad_engine_world (new_process, new_session)) =
        Raised (Error ''unknown chat mode'')"
    using client_setup_failure_caught [where w = bad_engine_world and k = "''secret-key''"
        and e = "Error ''unknown chat mode''" and p = new_process and ss = new_session and i = 5]
      key(4) configured(2) loaded no_engine engine by blast
  moreover have "outcome_of (script failing_chat_world (warm_process, greeted_session)) =
        Raised (Error ''503 Service Unavailable'')"
    using client_setup_failure_caught [where w = failing_chat_world
        and e = "Error ''503 Service Unavailable''" and p = warm_process and ss = greeted_session
        and ?ss4.0 = greeted_session and engine = 6 and q = "''What is good?''"]
      failing_startup turn by blast
  moreover have "outcome_of (script no_secrets_world (new_process, new_session)) =
        Raised (Error ''No secrets found.'')"
    using client_setup_failure_caught [where w = no_secrets_world
        and e = "Error ''No secrets found.''" and p = new_process and ss = new_session]
      no_store by blast
  ultimately show ?thesis
    using key(1) llm embedding corrupt engine turn(4) no_store
    by (simp add: outcome_of_def)
qed

text \<open>
  Claim C5. When the chat call of a turn raises, the run ends with that exception: the
  chat call is the last call of the run and the only chat call in it (no retry), and the
  run displays no error (no handler, no message of the program's own).
\<close>

theorem chat_failure_propagates:
  assumes "startup w (p, ss) = (None, evs, p', ss4)" and "chat_engine ss4 = Some engine"
    and "chat_input w = Some q" and "q \<noteq> []" and "chat w engine q = Inl e"
  shows "outcome_of (script w (p, ss)) = Raised e
       \<and> trace_of (script w (p, ss)) =
           evs @ [St_chat_input chat_prompt, St_chat_message ''user'', St_markdown q,
                  St_chat_message ''assistant'', St_spinner ''Thinking...'', Chat_call engine q]
       \<and> filter is_chat_call (trace_of (script w (p, ss))) = [Chat_call engine q]
       \<and> filter is_error_display (trace_of (script w (p, ss))) = []"
proof -
  have run: "script w (p, ss) =
     (Raised e,
      evs @ [St_chat_input chat_prompt, St_chat_message ''user'', St_markdown q,
             St_chat_message ''assistant'', St_spinner ''Thinking...'', Chat_call engine q],
      p', ss4\<lparr>messages := Some (seeded ss @ [user_message q])\<rparr>)"
    using assms by (rule script_chat_raises)
  have "filter is_chat_call evs = []"
    using startup_no_chat_call [of w p ss] assms(1) by simp
  moreover have "filter is_error_display evs = []"
    using assms(1) by (rule startup_ready_no_error_display)
  ultimately show ?thesis
    by (simp add: run outcome_of_def trace_of_def)
qed

theorem chat_failure_propagates_witness:
  "chat_engine greeted_session = Some 6
   \<and> chat_input failing_chat_world = Some ''What is good?''
   \<and> chat failing_chat_world 6 ''What is good?'' = Inl (Error ''503 Service Unavailable'')
   \<and> outcome_of (script failing_chat_world (warm_process, greeted_session)) =
        Raised (Error ''503 Service Unavailable'')
   \<and> filter is_chat_call (trace_of (script failing_chat_world (warm_process, greeted_session))) =
        [Chat_call 6 ''What is good?'']
   \<and> filter is_error_display (trace_of (script failing_chat_world (warm_process, greeted_session))) = []"
proof -
  have turn: "chat_engine greeted_session = Some 6" "chat_input failing_chat_world = Some ''What is good?''"
      "''What is good?'' \<noteq> []"
      "chat failing_chat_world 6 ''What is good?'' = Inl (Error ''503 Service Unavailable'')"
    by (simp_all add: sample_worlds greeted_session_def)
  from chat_failure_propagates [OF failing_startup turn] turn show ?thesis
    by blast
qed

text \<open>
  Claim C9. A turn is not atomic. When the chat call raises, the session is left with the
  list it had at the start of the turn followed by the user's message, and nothing
  after: the list is one longer than before, differs from what the session held before
  the run, and, if its length was 1 + 2n before, has no length of the form 1 + 2m after.
\<close>

theorem failed_turn_keeps_user_message:
  assumes "startup w (p, ss) = (None, evs, p', ss4)" and "chat_engine ss4 = Some engine"
    and "chat_input w = Some q" and "q \<noteq> []" and "chat w engine q = Inl e"
  shows "outcome_of (script w (p, ss)) = Raised e
       \<and> messages (snd (stores_of (script w (p, ss)))) = Some (seeded ss @ [user_message q])
       \<and> messages (snd (stores_of (script w (p, ss)))) \<noteq> messages ss
       \<and> length (seeded ss @ [user_message q]) = Suc (length (seeded ss))
       \<and> (length (seeded ss) = 1 + 2 * n \<longrightarrow>
            (\<forall>m. length (seeded ss @ [user_message q]) \<noteq> 1 + 2 * m))"
proof -
  have run: "script w (p, ss) =
     (Raised e,
      evs @ [St_chat_input chat_prompt, St_chat_message ''user'', St_markdown q,
             St_chat_message ''assistant'', St_spinner ''Thinking...'', Chat_call engine q],
      p', ss4\<lparr>messages := Some (seeded ss @ [user_message q])\<rparr>)"
    using assms by (rule script_chat_raises)
  have changed: "Some (seeded ss @ [user_message q]) \<noteq> messages ss"
    by (cases "messages ss") (simp_all add: seeded_def)
  have parity: "length (seeded ss) = 1 + 2 * n \<longrightarrow>
      (\<forall>m. length (seeded ss @ [user_message q]) \<noteq> 1 + 2 * m)"
    by (simp; presburger)
  from changed parity show ?thesis
    by (simp add: run outcome_of_def stores_of_def)
qed

theorem failed_turn_keeps_user_message_witness:
  "chat_engine greeted_session = Some 6
   \<and> chat_input failing_chat_world = Some ''What is good?''
   \<and> chat failing_chat_world 6 ''What is good?'' = Inl (Error ''503 Service Unavailable'')
   \<and> length (seeded greeted_session) = 1 + 2 * 0
   \<and> outcome_of (script failing_chat_world (warm_process, greeted_session)) =
        Raised (Error ''503 Service Unavailable'')
   \<and> messages (snd (stores_of (script failing_chat_world (warm_process, greeted_session)))) =
        Some [greeting, user_message ''What is good?'']
   \<and> length [greeting, user_message ''What is good?''] = 2"
proof -
  have turn: "chat_engine greeted_session = Some 6" "chat_input failing_chat_world = Some ''What is good?''"
      "''What is good?'' \<noteq> []"
      "chat failing_chat_world 6 ''What is good?'' = Inl (Error ''503 Service Unavailable'')"
    by (simp_all add: sample_worlds greeted_session_def)
  have before: "seeded greeted_session = [greeting]"
    by (simp add: seeded_def greeted_session_def)
  from failed_turn_keeps_user_message [OF failing_startup turn, of 0] before
  have "outcome_of (script failing_chat_world (warm_process, greeted_session)) =
        Raised (Error ''503 Service Unavailable'')
     \<and> messages (snd (stores_of (script failing_chat_world (warm_process, greeted_session)))) =
        Some [greeting, user_message ''What is good?'']"
    by simp
  with turn before show ?thesis
    by simp
qed

subsection \<open>Length and roles of the message list\<close>

lemma alternating_append: "alternating (m + n) = alternating m @ alternating n"
  by (induction m) simp_all

lemma length_alternating: "length (alternating n) = 2 * n"
  by (induction n) simp_all

lemma set_alternating: "set (alternating n) \<subseteq> {''user'', ''assistant''}"
  by (induction n) auto

lemma handle_turn_ready:
  assumes "messages ss = Some ms" and "chat_engine ss = Some engine"
  shows "fst (handle_turn w ss) = Completed
       \<or> (\<exists>e. fst (handle_turn w ss) = Raised e
            \<and> filter is_chat_call (fst (snd (handle_turn w ss))) \<noteq> [])"
  using assms
  by (auto simp: handle_turn_def append_message_def Let_def split: option.splits sum.splits)

text \<open>
  A run that is not a failed turn either ends before the chat input and leaves the
  session as it was, or reaches the end of the script and leaves the seeded list, with
  a user and an assistant message appended when the user submitted a query.
\<close>

lemma script_turn_effect:
  assumes "\<not> failed_turn (script w (p, ss))"
  shows "(outcome_of (script w (p, ss)) \<noteq> Completed \<and> snd (stores_of (script w (p, ss))) = ss)
       \<or> (outcome_of (script w (p, ss)) = Completed
          \<and> (\<exists>ext. messages (snd (stores_of (script w (p, ss)))) = Some (seeded ss @ ext)
                \<and> map role ext = alternating (if submitted w then 1 else 0)))"
proof (cases rule: script_session_cases [where w = w and p = p and ss = ss])
  case (ended out evs p')
  then show ?thesis by (simp add: outcome_of_def stores_of_def)
next
  case (turn evs p' ss4)
  from turn(3) obtain engine where "chat_engine ss4 = Some engine" by auto
  from handle_turn_ready [OF turn(2) this, of w] assms turn(5)
  have "fst (handle_turn w ss4) = Completed"
    by (auto simp: failed_turn_def outcome_of_def trace_of_def)
  with turn(5) have finished: "outcome_of (script w (p, ss)) = Completed"
    by (simp add: outcome_of_def)
  from script_completed_messages [OF this] finished show ?thesis by auto
qed

lemma runs_extend_by_completed_turns:
  assumes "\<forall>r\<in>set (session_runs ws (p, ss)). \<not> failed_turn r"
    and "messages ss = Some ms"
  shows "\<exists>ext. messages (snd (after_runs ws (p, ss))) = Some (ms @ ext)
           \<and> map role ext = alternating (completed_turns ws (p, ss))"
  using assms
proof (induction ws arbitrary: p ss ms)
  case Nil
  then show ?case by simp
next
  case (Cons w ws)
  obtain p' ss' where st: "stores_of (script w (p, ss)) = (p', ss')"
    by (cases "stores_of (script w (p, ss))") blast
  from Cons.prems(1) have first: "\<not> failed_turn (script w (p, ss))"
    and rest: "\<forall>r\<in>set (session_runs ws (p', ss')). \<not> failed_turn r"
    using st by simp_all
  from script_turn_effect [OF first] show ?case
  proof (elim disjE conjE exE)
    assume "outcome_of (script w (p, ss)) \<noteq> Completed"
      and "snd (stores_of (script w (p, ss))) = ss"
    with st have same: "ss' = ss" and none: "\<not> completed_turn w (script w (p, ss))"
      by (simp_all add: completed_turn_def)
    from Cons.IH [OF rest, of ms] Cons.prems(2) same obtain ext
      where "messages (snd (after_runs ws (p', ss'))) = Some (ms @ ext)"
        "map role ext = alternating (completed_turns ws (p', ss'))"
      by auto
    with st none show ?thesis by simp
  next
    fix ext1
    assume finished: "outcome_of (script w (p, ss)) = Completed"
      and stored: "messages (snd (stores_of (script w (p, ss)))) = Some (seeded ss @ ext1)"
      and roles1: "map role ext1 = alternating (if submitted w then 1 else 0)"
    from stored st Cons.prems(2) have "messages ss' = Some (ms @ ext1)"
      by (simp add: seeded_Some)
    from Cons.IH [OF rest this] obtain ext2
      where ext2: "messages (snd (after_runs ws (p', ss'))) = Some ((ms @ ext1) @ ext2)"
        "map role ext2 = alternating (completed_turns ws (p', ss'))"
      by blast
    from finished have count: "completed_turns (w # ws) (p, ss) =
        (if submitted w then 1 else 0) + completed_turns ws (p', ss')"
      using st by (simp add: completed_turn_def)
    have "map role (ext1 @ ext2) = alternating (completed_turns (w # ws) (p, ss))"
      using roles1 ext2(2) by (simp only: map_append count alternating_append)
    with ext2(1) st show ?thesis
      by (intro exI [of _ "ext1 @ ext2"]) simp
  qed
qed

lemma runs_seed_and_extend:
  assumes "\<forall>r\<in>set (session_runs ws (p, ss)). \<not> failed_turn r"
    and "messages ss = None"
  shows "(messages (snd (after_runs ws (p, ss))) = None
            \<and> (\<forall>r\<in>set (session_runs ws (p, ss)). outcome_of r \<noteq> Completed)
            \<and> completed_turns ws (p, ss) = 0)
       \<or> (\<exists>ext. messages (snd (after_runs ws (p, ss))) = Some (greeting # ext)
             \<and> map role ext = alternating (completed_turns ws (p, ss)))"
  using assms
proof (induction ws arbitrary: p ss)
  case Nil
  then show ?case by simp
next
  case (Cons w ws)
  obtain p' ss' where st: "stores_of (script w (p, ss)) = (p', ss')"
    by (cases "stores_of (script w (p, ss))") blast
  from Cons.prems(1) have first: "\<not> failed_turn (script w (p, ss))"
    and rest: "\<forall>r\<in>set (session_runs ws (p', ss')). \<not> failed_turn r"
    using st by simp_all
  from script_turn_effect [OF first] show ?case
  proof (elim disjE conjE exE)
    assume early: "outcome_of (script w (p, ss)) \<noteq> Completed"
      and "snd (stores_of (script w (p, ss))) = ss"
    with st have same: "ss' = ss" and none: "\<not> completed_turn w (script w (p, ss))"
      by (simp_all add: completed_turn_def)
    from Cons.IH [OF rest] Cons.prems(2) same early st none show ?thesis
      by auto
  next
    fix ext1
    assume finished: "outcome_of (script w (p, ss)) = Completed"
      and stored: "messages (snd (stores_of (script w (p, ss)))) = Some (seeded ss @ ext1)"
      and roles1: "map role ext1 = alternating (if submitted w then 1 else 0)"
    from stored st Cons.prems(2) have "messages ss' = Some ([greeting] @ ext1)"
      by (simp add: seeded_None)
    from runs_extend_by_completed_turns [OF rest this] obtain ext2
      where ext2: "messages (snd (after_runs ws (p', ss'))) = Some (([greeting] @ ext1) @ ext2)"
        "map role ext2 = alternating (completed_turns ws (p', ss'))"
      by blast
    from finished have count: "completed_turns (w # ws) (p, ss) =
        (if submitted w then 1 else 0) + completed_turns ws (p', ss')"
      using st by (simp add: completed_turn_def)
    have "map role (ext1 @ ext2) = alternating (completed_turns (w # ws) (p, ss))"
      using roles1 ext2(2) by (simp only: map_append count alternating_append)
    with ext2(1) st have "\<exists>ext. messages (snd (after_runs (w # ws) (p, ss))) = Some (greeting # ext)
             \<and> map role ext = alternating (completed_turns (w # ws) (p, ss))"
      by (intro exI [of _ "ext1 @ ext2"]) simp
    then show ?thesis ..
  qed
qed

text \<open>
  Claim C2. Take a new session and any sequence of runs in which no turn failed, that
  is, in which every chat call that was made succeeded; runs may end before the chat
  input (a stop at startup, an exception at startup) or reach the end of the script.
  Let N be the number of completed turns. If no run reached the end of the script the
  session holds no list yet. Otherwise it holds a list of length 1 + 2N: the first
  message is the assistant's greeting and after it the roles are user, assistant, user,
  assistant and so on; no other role occurs.
\<close>

theorem message_list_after_turns:
  assumes "\<forall>r\<in>set (session_runs ws (p, new_session)). \<not> failed_turn r"
  shows "(messages (snd (after_runs ws (p, new_session))) = None
            \<and> (\<forall>r\<in>set (session_runs ws (p, new_session)). outcome_of r \<noteq> Completed))
       \<or> (\<exists>ext. messages (snd (after_runs ws (p, new_session))) = Some (greeting # ext)
             \<and> length (greeting # ext) = 1 + 2 * completed_turns ws (p, new_session)
             \<and> role greeting = ''assistant''
             \<and> map role ext = alternating (completed_turns ws (p, new_session))
             \<and> set (map role (greeting # ext)) \<subseteq> {''user'', ''assistant''})"
proof -
  have "messages new_session = None"
    by (simp add: new_session_def)
  from runs_seed_and_extend [OF assms this] show ?thesis
  proof (elim disjE conjE exE)
    assume "messages (snd (after_runs ws (p, new_session))) = None"
      and "\<forall>r\<in>set (session_runs ws (p, new_session)). outcome_of r \<noteq> Completed"
    then show ?thesis by blast
  next
    fix ext
    assume stored: "messages (snd (after_runs ws (p, new_session))) = Some (greeting # ext)"
      and roles: "map role ext = alternating (completed_turns ws (p, new_session))"
    have "length (map role ext) = 2 * completed_turns ws (p, new_session)"
      unfolding roles by (rule length_alternating)
    then have len: "length (greeting # ext) = 1 + 2 * completed_turns ws (p, new_session)"
      by simp
    have seed: "role greeting = ''assistant''"
      by (simp add: greeting_def)
    have "set (map role ext) \<subseteq> {''user'', ''assistant''}"
      unfolding roles by (rule set_alternating)
    with seed have "set (map role (greeting # ext)) \<subseteq> {''user'', ''assistant''}"
      by simp
    with stored len seed roles show ?thesis
      by blast
  qed
qed

lemma bad_llm_run:
  "outcome_of (script bad_llm_world (new_process, new_session)) = Stopped Client_setup_failed
   \<and> stores_of (script bad_llm_world (new_process, new_session)) = (new_process, new_session)"
  by (simp add: script_sections sample_worlds sample_stores outcome_of_def stores_of_def)

theorem message_list_after_turns_witness:
  "map outcome_of (session_runs [bad_llm_world, idle_world, asking_world] (new_process, new_session))
       = [Stopped Client_setup_failed, Completed, Completed]
   \<and> map failed_turn (session_runs [bad_llm_world, idle_world, asking_world] (new_process, new_session))
       = [False, False, False]
   \<and> completed_turns [bad_llm_world, idle_world, asking_world] (new_process, new_session) = 1
   \<and> (\<exists>ext. messages (snd (after_runs [bad_llm_world, idle_world, asking_world] (new_process, new_session)))
          = Some (greeting # ext)
        \<and> length (greeting # ext) = 3
        \<and> map role ext = [''user'', ''assistant''])"
proof -
  let ?ws = "[bad_llm_world, idle_world, asking_world]"
  have outcomes: "map outcome_of (session_runs ?ws (new_process, new_session))
       = [Stopped Client_setup_failed, Completed, Completed]"
    using bad_llm_run first_idle_run asking_run by simp
  then have failed: "map failed_turn (session_runs ?ws (new_process, new_session)) = [False, False, False]"
    using bad_llm_run first_idle_run by (simp add: failed_turn_def)
  then have ok: "\<forall>r\<in>set (session_runs ?ws (new_process, new_session)). \<not> failed_turn r"
    using bad_llm_run first_idle_run by simp
  have n: "completed_turns ?ws (new_process, new_session) = 1"
    using bad_llm_run first_idle_run asking_run
    by (simp add: completed_turn_def submitted_def sample_worlds)
  have some: "\<not> (\<forall>r\<in>set (session_runs ?ws (new_process, new_session)). outcome_of r \<noteq> Completed)"
    using bad_llm_run first_idle_run asking_run by simp
  from message_list_after_turns [OF ok] some obtain ext
    where ext: "messages (snd (after_runs ?ws (new_process, new_session))) = Some (greeting # ext)"
      "length (greeting # ext) = 1 + 2 * completed_turns ?ws (new_process, new_session)"
      "map role ext = alternating (completed_turns ?ws (new_process, new_session))"
    by blast
  from ext(2) n have "length (greeting # ext) = 3"
    by simp
  moreover from ext(3) n have "map role ext = [''user'', ''assistant'']"
    by simp
  ultimately show ?thesis
    using ext(1) n outcomes failed by (intro conjI exI [of _ ext]) simp_all
qed

subsection \<open>The engine a turn calls\<close>

lemma handle_turn_calls_engine:
  assumes "messages ss = Some ms" and "chat_engine ss = Some engine"
    and "chat_input w = Some q" and "q \<noteq> []"
  shows "filter is_chat_call (fst (snd (handle_turn w ss))) = [Chat_call engine q]"
proof (cases "chat w engine q")
  case (Inl e)
  from handle_turn_failure [OF assms(3) assms(4) assms(1) assms(2) this] show ?thesis
    by simp
next
  case (Inr response)
  from handle_turn_success [OF assms(3) assms(4) assms(1) assms(2) this] show ?thesis
    by simp
qed

lemma startup_no_chat_input:
  assumes "x \<in> set (fst (snd (startup w (p, ss))))"
  shows "x \<noteq> St_chat_input chat_prompt"
proof (cases rule: startup_cases [where w = w and p = p and ss = ss])
  case (no_store e)
  with assms show ?thesis by auto
next
  case (missing_key store)
  with assms show ?thesis by auto
next
  case (setup_failed k ev1 p1)
  with assms configure_models_events [of x w k p] show ?thesis by auto
next
  case (load_failed k ev1 p1 e ev2 p2)
  with assms configure_models_events [of x w k p] load_index_events [of x w p1]
  show ?thesis by auto
next
  case (index_none k ev1 p1 ev2 p2)
  with assms configure_models_events [of x w k p] load_index_events [of x w p1]
  show ?thesis by auto
next
  case (engine_failed k ev1 p1 i ev2 p2 e ev3 ss3)
  with assms configure_models_events [of x w k p] load_index_events [of x w p1]
    init_chat_engine_events [of x w i ss]
  show ?thesis by auto
next
  case (ready k ev1 p1 i ev2 p2 ev3 ss3)
  with assms configure_models_events [of x w k p] load_index_events [of x w p1]
    init_chat_engine_events [of x w i ss] display_history_events [of x ss3]
  show ?thesis by auto
qed

text \<open>A run that reaches the chat input with a submitted query calls the stored engine, once.\<close>

lemma script_turn_calls_engine:
  assumes "chat_engine ss = Some engine"
    and "St_chat_input chat_prompt \<in> set (trace_of (script w (p, ss)))"
    and "chat_input w = Some q" and "q \<noteq> []"
  shows "filter is_chat_call (trace_of (script w (p, ss))) = [Chat_call engine q]"
proof (cases rule: script_session_cases [where w = w and p = p and ss = ss])
  case (ended out evs p')
  with assms(2) startup_no_chat_input [of "St_chat_input chat_prompt" w p ss] show ?thesis
    by (simp add: trace_of_def)
next
  case (turn evs p' ss4)
  from turn(4) assms(1) have "chat_engine ss4 = Some engine" by simp
  from handle_turn_calls_engine [OF turn(2) this assms(3) assms(4)]
    startup_no_chat_call [of w p ss] turn(1) turn(5)
  show ?thesis by (simp add: trace_of_def)
qed

lemma session_runs_turns_call_engine:
  "chat_engine ss = Some engine \<Longrightarrow>
     \<forall>(w', r)\<in>set (zip ws (session_runs ws (p, ss))).
        \<forall>q. St_chat_input chat_prompt \<in> set (trace_of r) \<and> chat_input w' = Some q \<and> q \<noteq> []
          \<longrightarrow> filter is_chat_call (trace_of r) = [Chat_call engine q]"
proof (induction ws arbitrary: p ss)
  case Nil
  then show ?case by simp
next
  case (Cons w ws)
  obtain p' ss' where st: "stores_of (script w (p, ss)) = (p', ss')"
    by (cases "stores_of (script w (p, ss))") blast
  from script_engine_reused [OF Cons.prems, of w p] st have "chat_engine ss' = Some engine"
    by simp
  from Cons.IH [OF this, of p'] script_turn_calls_engine [OF Cons.prems, of w p] st
  show ?case by simp
qed

text \<open>
  Claim C7. In the first run of a session that reaches the chat input, the chat engine is
  created by exactly one call, with chat mode \<^verbatim>\<open>context\<close> and the fixed system
  prompt, and stored in the session; a query submitted in that run is sent to it. In
  every later run of the session, however it ends, the session still holds that same
  engine, no engine is created, and no other engine is called; and every later run that
  reaches the chat input with a submitted query makes its one chat call on that engine.
\<close>

theorem chat_engine_created_once:
  assumes "chat_engine ss = None" and "fst (startup w (p, ss)) = None"
  shows "\<exists>index engine.
           as_chat_engine w index ''context'' SYSTEM_PROMPT = Inr engine
         \<and> filter is_engine_creation (trace_of (script w (p, ss))) =
             [As_chat_engine index ''context'' SYSTEM_PROMPT]
         \<and> chat_engine (snd (stores_of (script w (p, ss)))) = Some engine
         \<and> (\<forall>q. chat_input w = Some q \<and> q \<noteq> [] \<longrightarrow>
               filter is_chat_call (trace_of (script w (p, ss))) = [Chat_call engine q])
         \<and> (\<forall>r\<in>set (session_runs ws (stores_of (script w (p, ss)))).
               chat_engine (snd (stores_of r)) = Some engine
               \<and> filter is_engine_creation (trace_of r) = []
               \<and> (\<forall>x\<in>set (trace_of r). chat_call_engine x = None \<or> chat_call_engine x = Some engine))
         \<and> (\<forall>(w', r)\<in>set (zip ws (session_runs ws (stores_of (script w (p, ss))))).
               \<forall>q. St_chat_input chat_prompt \<in> set (trace_of r) \<and> chat_input w' = Some q \<and> q \<noteq> []
                 \<longrightarrow> filter is_chat_call (trace_of r) = [Chat_call engine q])"
proof -
  obtain evs p' ss4 where start: "startup w (p, ss) = (None, evs, p', ss4)"
    using assms(2) by (cases "startup w (p, ss)" rule: prod_cases4) auto
  from startup_creates_engine [OF assms(1) start] obtain index engine
    where created: "as_chat_engine w index ''context'' SYSTEM_PROMPT = Inr engine"
      "filter is_engine_creation evs = [As_chat_engine index ''context'' SYSTEM_PROMPT]"
      "chat_engine ss4 = Some engine"
    by blast
  have run: "script w (p, ss) =
      (fst (handle_turn w ss4), evs @ fst (snd (handle_turn w ss4)), p', snd (snd (handle_turn w ss4)))"
    using start by (rule script_startup_None)
  have trace: "filter is_engine_creation (trace_of (script w (p, ss))) =
      [As_chat_engine index ''context'' SYSTEM_PROMPT]"
    using created(2) handle_turn_no_creation [of w ss4] by (simp add: run trace_of_def)
  have stored: "chat_engine (snd (stores_of (script w (p, ss)))) = Some engine"
    using created(3) by (simp add: run stores_of_def handle_turn_chat_engine)
  have listed: "messages ss4 = Some (seeded ss)"
    using startup_ready_session [OF start] by simp
  have no_calls: "filter is_chat_call evs = []"
    using startup_no_chat_call [of w p ss] start by simp
  have called: "\<forall>q. chat_input w = Some q \<and> q \<noteq> [] \<longrightarrow>
      filter is_chat_call (trace_of (script w (p, ss))) = [Chat_call engine q]"
    using handle_turn_calls_engine [OF listed created(3), of w] no_calls
    by (simp add: run trace_of_def)
  obtain p1 ss1 where st: "stores_of (script w (p, ss)) = (p1, ss1)"
    by (cases "stores_of (script w (p, ss))") blast
  with stored have kept: "chat_engine ss1 = Some engine" by simp
  from session_runs_engine_reused [OF kept, of ws p1]
    session_runs_turns_call_engine [OF kept, of ws p1]
    created(1) trace stored called st
  show ?thesis
    by (intro exI [of _ index] exI [of _ engine]) simp
qed


lemma first_asking_startup:
  "fst (startup asking_world (new_process, new_session)) = None"
  by (simp add: script_sections sample_worlds sample_stores PERSIST_DIR_def)

lemma first_asking_run:
  "stores_of (script asking_world (new_process, new_session)) =
     (warm_process,
      greeted_session\<lparr>messages :=
        Some [greeting, user_message ''What is good?'', assistant_message ''Try the grilled fish.'']\<rparr>)"
  by (simp add: script_sections sample_worlds sample_stores stores_of_def PERSIST_DIR_def
      user_message_def assistant_message_def)

lemma asking_again_reaches_input:
  "St_chat_input chat_prompt \<in> set (trace_of (script asking_world
      (warm_process,
       greeted_session\<lparr>messages :=
          Some [greeting, user_message ''What is good?'', assistant_message ''Try the grilled fish.'']\<rparr>)))"
  by (simp add: script_sections sample_worlds sample_stores trace_of_def)

theorem chat_engine_created_once_witness:
  "chat_engine new_session = None
   \<and> fst (startup asking_world (new_process, new_session)) = None
   \<and> chat_input asking_world = Some ''What is good?''
   \<and> (\<exists>index. as_chat_engine asking_world index ''context'' SYSTEM_PROMPT = Inr 6
         \<and> filter is_engine_creation (trace_of (script asking_world (new_process, new_session))) =
             [As_chat_engine index ''context'' SYSTEM_PROMPT])
   \<and> filter is_chat_call (trace_of (script asking_world (new_process, new_session))) =
       [Chat_call 6 ''What is good?'']
   \<and> St_chat_input chat_prompt \<in> set (trace_of (script asking_world
        (stores_of (script asking_world (new_process, new_session)))))
   \<and> chat_engine (snd (stores_of (script asking_world
        (stores_of (script asking_world (new_process, new_session)))))) = Some 6
   \<and> filter is_engine_creation (trace_of (script asking_world
        (stores_of (script asking_world (new_process, new_session))))) = []
   \<and> filter is_chat_call (trace_of (script asking_world
        (stores_of (script asking_world (new_process, new_session))))) = [Chat_call 6 ''What is good?'']"
proof -
  let ?first = "script asking_world (new_process, new_session)"
  let ?second = "script asking_world (stores_of ?first)"
  have fresh: "chat_engine new_session = None"
    by (simp add: new_session_def)
  have query: "chat_input asking_world = Some ''What is good?''" "''What is good?'' \<noteq> []"
    by (simp_all add: sample_worlds)
  have reached: "St_chat_input chat_prompt \<in> set (trace_of ?second)"
    using asking_again_reaches_input by (simp add: first_asking_run)
  have held: "chat_engine (snd (stores_of ?first)) = Some 6"
    by (simp add: first_asking_run greeted_session_def)
  from chat_engine_created_once [OF fresh first_asking_startup, of "[asking_world]"]
  obtain index engine where facts:
    "as_chat_engine asking_world index ''context'' SYSTEM_PROMPT = Inr engine"
    "filter is_engine_creation (trace_of ?first) = [As_chat_engine index ''context'' SYSTEM_PROMPT]"
    "chat_engine (snd (stores_of ?first)) = Some engine"
    "\<forall>q. chat_input asking_world = Some q \<and> q \<noteq> [] \<longrightarrow>
       filter is_chat_call (trace_of ?first) = [Chat_call engine q]"
    "chat_engine (snd (stores_of ?second)) = Some engine"
    "filter is_engine_creation (trace_of ?second) = []"
    "\<forall>q. St_chat_input chat_prompt \<in> set (trace_of ?second) \<and> chat_input asking_world = Some q
       \<and> q \<noteq> [] \<longrightarrow> filter is_chat_call (trace_of ?second) = [Chat_call engine q]"
    by auto
  from facts(3) held have engine: "engine = 6" by simp
  from facts(4) query have "filter is_chat_call (trace_of ?first) = [Chat_call engine ''What is good?'']"
    by blast
  moreover from facts(7) reached query
  have "filter is_chat_call (trace_of ?second) = [Chat_call engine ''What is good?'']"
    by blast
  ultimately show ?thesis
    using fresh first_asking_startup query(1) reached facts(1) facts(2) facts(5) facts(6) engine
    by blast
qed

end
